theory Spec2Isabelle
  imports Complex_Main "HOL-Library.Multiset"
begin

section \<open>JavaScript strings\<close>

text \<open>
  A JavaScript string is a sequence of UTF-16 code units; \<open>length\<close>, \<open>substring\<close>,
  \<open>trim\<close>, \<open>split\<close> and the regular expressions of \<open>ragQueryService.ts\<close> (none has the
  \<open>u\<close> flag) all count and compare code units. A string is therefore a list of
  code units, each a natural number below 65536. \<open>js\<close> turns an ASCII literal of the
  source into such a list.
\<close>

type_synonym jsstring = "nat list"

definition js :: "string \<Rightarrow> jsstring" where
  "js s = map of_char s"

text \<open>
  \<open>String.prototype.trim\<close> and the regular-expression class \<open>\s\<close> use the same set:
  WhiteSpace and LineTerminator of ECMAScript.
\<close>

definition isWhiteSpace :: "nat \<Rightarrow> bool" where
  "isWhiteSpace c \<longleftrightarrow>
     c = 9 \<or> c = 10 \<or> c = 11 \<or> c = 12 \<or> c = 13 \<or> c = 32 \<or> c = 160 \<or> c = 5760 \<or>
     (8192 \<le> c \<and> c \<le> 8202) \<or> c = 8232 \<or> c = 8233 \<or> c = 8239 \<or> c = 8287 \<or>
     c = 12288 \<or> c = 65279"

definition trim :: "jsstring \<Rightarrow> jsstring" where
  "trim s = rev (dropWhile isWhiteSpace (rev (dropWhile isWhiteSpace s)))"

text \<open>The code units that \<open>.\<close> does not match in a regular expression without the \<open>s\<close> flag.\<close>

definition isLineTerminator :: "nat \<Rightarrow> bool" where
  "isLineTerminator c \<longleftrightarrow> c = 10 \<or> c = 13 \<or> c = 8232 \<or> c = 8233"

text \<open>The class \<open>\w\<close> (without the \<open>u\<close> flag): ASCII letters, digits and the underscore.\<close>

definition isWordChar :: "nat \<Rightarrow> bool" where
  "isWordChar c \<longleftrightarrow> (48 \<le> c \<and> c \<le> 57) \<or> (65 \<le> c \<and> c \<le> 90) \<or> c = 95 \<or> (97 \<le> c \<and> c \<le> 122)"

text \<open>
  Case-insensitive matching of a regular expression without the \<open>u\<close> flag compares
  code units after upper-casing, and never lets a code unit from 128 on match an ASCII
  one; for the ASCII patterns of the source this is equality after folding \<open>A\<close>--\<open>Z\<close>
  to \<open>a\<close>--\<open>z\<close>.
\<close>

definition foldUnit :: "nat \<Rightarrow> nat" where
  "foldUnit c = (if 65 \<le> c \<and> c \<le> 90 then c + 32 else c)"

text \<open>
  \<open>String.prototype.toLowerCase\<close>. The source only ever searches the lower-cased
  text for ASCII keywords, so what matters is which code units produce ASCII ones:
  \<open>A\<close>--\<open>Z\<close>, the Kelvin sign U+212A (to \<open>k\<close>) and U+0130 (to \<open>i\<close> followed by U+0307).
  Every other code unit lower-cases to code units outside ASCII and stands for them here.
\<close>

definition lowerUnit :: "nat \<Rightarrow> jsstring" where
  "lowerUnit c =
     (if 65 \<le> c \<and> c \<le> 90 then [c + 32]
      else if c = 8490 then [107]
      else if c = 304 then [105, 775]
      else [c])"

definition toLowerCase :: "jsstring \<Rightarrow> jsstring" where
  "toLowerCase s = concat (map lowerUnit s)"

fun startsWith :: "jsstring \<Rightarrow> jsstring \<Rightarrow> bool" where
  "startsWith s [] = True"
| "startsWith [] (p # ps) = False"
| "startsWith (c # cs) (p # ps) = (c = p \<and> startsWith cs ps)"

definition endsWith :: "jsstring \<Rightarrow> jsstring \<Rightarrow> bool" where
  "endsWith s p = startsWith (rev s) (rev p)"

text \<open>\<open>startsWithCI s p\<close>: the pattern text \<open>p\<close> matches at the start of \<open>s\<close> under the \<open>i\<close> flag.\<close>

definition startsWithCI :: "jsstring \<Rightarrow> jsstring \<Rightarrow> bool" where
  "startsWithCI s p = startsWith (map foldUnit s) (map foldUnit p)"

text \<open>\<open>String.prototype.includes\<close>.\<close>

fun includesStr :: "jsstring \<Rightarrow> jsstring \<Rightarrow> bool" where
  "includesStr [] p = (p = [])"
| "includesStr (c # cs) p = (startsWith (c # cs) p \<or> includesStr cs p)"

text \<open>
  \<open>s.split(sep)\<close> for a non-empty separator string: the pieces between the
  occurrences of \<open>sep\<close>, found from the left and not overlapping. \<open>splitGo\<close> walks the
  string once; \<open>skip\<close> counts the code units of a separator still to pass over, \<open>cur\<close>
  is the current piece, reversed.
\<close>

fun splitGo :: "jsstring \<Rightarrow> nat \<Rightarrow> jsstring \<Rightarrow> jsstring \<Rightarrow> jsstring list" where
  "splitGo sep skip cur [] = [rev cur]"
| "splitGo sep (Suc k) cur (c # cs) = splitGo sep k cur cs"
| "splitGo sep 0 cur (c # cs) =
     (if startsWith (c # cs) sep then rev cur # splitGo sep (length sep - 1) [] cs
      else splitGo sep 0 (c # cur) cs)"

definition split :: "jsstring \<Rightarrow> jsstring \<Rightarrow> jsstring list" where
  "split s sep = splitGo sep 0 [] s"

text \<open>\<open>regex.test(s)\<close> for an alternation of literal words under the \<open>i\<close> flag.\<close>

fun testAny :: "jsstring list \<Rightarrow> jsstring \<Rightarrow> bool" where
  "testAny alts [] = False"
| "testAny alts (c # cs) = (list_ex (startsWithCI (c # cs)) alts \<or> testAny alts cs)"

text \<open>
  \<open>s.replace(/a|b|.../gi, '')\<close>: at each position the first alternative that matches
  is removed and the scan goes on behind it.
\<close>

fun removeAllGo :: "jsstring list \<Rightarrow> nat \<Rightarrow> jsstring \<Rightarrow> jsstring" where
  "removeAllGo alts skip [] = []"
| "removeAllGo alts (Suc k) (c # cs) = removeAllGo alts k cs"
| "removeAllGo alts 0 (c # cs) =
     (case List.find (startsWithCI (c # cs)) alts of
        Some a \<Rightarrow> removeAllGo alts (length a - 1) cs
      | None \<Rightarrow> c # removeAllGo alts 0 cs)"

definition removeAll :: "jsstring list \<Rightarrow> jsstring \<Rightarrow> jsstring" where
  "removeAll alts s = removeAllGo alts 0 s"

text \<open>\<open>s.replace(/pat/i, rep)\<close>: the first match only; \<open>rep\<close> has no \<open>$\<close> pattern.\<close>

fun replaceFirstCI :: "jsstring \<Rightarrow> jsstring \<Rightarrow> jsstring \<Rightarrow> jsstring" where
  "replaceFirstCI pat rep [] = []"
| "replaceFirstCI pat rep (c # cs) =
     (if startsWithCI (c # cs) pat then rep @ drop (length pat) (c # cs)
      else c # replaceFirstCI pat rep cs)"

text \<open>
  \<open>/\b(a|b|...)\b/i.test(s)\<close>. \<open>\b\<close> holds between two positions of which exactly one is a
  word character, the outside of the string counting as none. \<open>prev\<close> is the code unit
  before the current position.
\<close>

definition isWordOpt :: "nat option \<Rightarrow> bool" where
  "isWordOpt c = (case c of None \<Rightarrow> False | Some u \<Rightarrow> isWordChar u)"

definition unitAt :: "jsstring \<Rightarrow> nat \<Rightarrow> nat option" where
  "unitAt s i = (if i < length s then Some (s ! i) else None)"

definition wordMatchHere :: "nat option \<Rightarrow> jsstring \<Rightarrow> jsstring \<Rightarrow> bool" where
  "wordMatchHere prev s a \<longleftrightarrow>
     startsWithCI s a \<and>
     isWordOpt prev \<noteq> isWordOpt (unitAt s 0) \<and>
     isWordOpt (if length a = 0 then prev else unitAt s (length a - 1)) \<noteq> isWordOpt (unitAt s (length a))"

fun testWordGo :: "jsstring list \<Rightarrow> nat option \<Rightarrow> jsstring \<Rightarrow> bool" where
  "testWordGo alts prev [] = list_ex (wordMatchHere prev []) alts"
| "testWordGo alts prev (c # cs) =
     (list_ex (wordMatchHere prev (c # cs)) alts \<or> testWordGo alts (Some c) cs)"

definition testWord :: "jsstring list \<Rightarrow> jsstring \<Rightarrow> bool" where
  "testWord alts s = testWordGo alts None s"

text \<open>Decimal rendering of a non-negative integer, as a template literal does it.\<close>

fun showNat :: "nat \<Rightarrow> jsstring" where
  "showNat n = (if n < 10 then [48 + n] else showNat (n div 10) @ [48 + n mod 10])"

declare showNat.simps [simp del]

section \<open>Cost estimate\<close>

text \<open>
  \<open>estimateCost\<close>: the table \<open>costPer1M\<close> of the source, looked up by model name. A
  JavaScript \<open>x || d\<close> yields \<open>d\<close> when \<open>x\<close> is \<open>undefined\<close> and also when it is the
  number \<open>0\<close>. Costs are real numbers here; the rounding of the double-precision
  division and multiplication is not modelled. Property names inherited from
  \<open>Object.prototype\<close> are not model names and are outside the table.
\<close>

definition costPer1M :: "(jsstring \<times> real) list" where
  "costPer1M =
     [(js ''x-ai/grok-2-1212'', 2.0),
      (js ''x-ai/grok-beta'', 2.0),
      (js ''google/gemini-2.0-flash-exp:free'', 0),
      (js ''anthropic/claude-3-haiku'', 0.25),
      (js ''meta-llama/llama-3.1-8b-instruct:free'', 0)]"

definition orElseNum :: "real option \<Rightarrow> real \<Rightarrow> real" where
  "orElseNum x d = (case x of None \<Rightarrow> d | Some v \<Rightarrow> if v = 0 then d else v)"

definition estimateCost :: "jsstring \<Rightarrow> nat \<Rightarrow> real" where
  "estimateCost model tokens =
     (let modelCost = orElseNum (map_of costPer1M model) 1.0
      in (real tokens / 1000000) * modelCost)"

section \<open>Retrieved chunks and deduplication\<close>

text \<open>
  The rows of the similarity search are untyped (\<open>any\<close>) in the source. The record
  has the properties the service reads; an optional property is an \<open>option\<close>.
  \<open>c_chapter\<close> is \<open>metadata?.chapter\<close>; \<open>c_joined\<close> is the nested
  \<open>legalrnd_documents\<close> object of a fallback row. Each field carries the prefix \<open>c_\<close>,
  since the citation has fields of the same names.
\<close>

record docjoin =
  dj_file_path :: "jsstring option"
  dj_file_type :: "jsstring option"

record chunk =
  c_id :: jsstring
  c_document_id :: jsstring
  c_document_title :: jsstring
  c_master_name :: jsstring
  c_page_number :: "nat option"
  c_content :: jsstring
  c_similarity :: "real option"
  c_position :: "nat option"
  c_chapter :: "jsstring option"
  c_youtube_video_id :: "jsstring option"
  c_start_timestamp :: "real option"
  c_end_timestamp :: "real option"
  c_file_path :: "jsstring option"
  c_file_type :: "jsstring option"
  c_joined :: "docjoin option"

text \<open>\<open>chunk.similarity || 0\<close>.\<close>

definition similarityOrZero :: "chunk \<Rightarrow> real" where
  "similarityOrZero c = orElseNum (c_similarity c) 0"

text \<open>
  The filter of \<open>deduplicateChunks\<close> with its mutable set \<open>seen\<close>, passed along
  explicitly.
\<close>

fun dedupFilter :: "jsstring set \<Rightarrow> chunk list \<Rightarrow> chunk list" where
  "dedupFilter seen [] = []"
| "dedupFilter seen (c # cs) =
     (if c_id c \<in> seen then dedupFilter seen cs
      else c # dedupFilter (insert (c_id c) seen) cs)"

text \<open>
  \<open>Array.prototype.sort\<close> with the comparator \<open>(b.similarity || 0) - (a.similarity || 0)\<close>
  is a stable sort (ECMAScript 2019) into descending similarity: a stable sort by
  the negated key.
\<close>

definition deduplicateChunks :: "chunk list \<Rightarrow> chunk list" where
  "deduplicateChunks chunks =
     sort_key (\<lambda>c. - similarityOrZero c) (dedupFilter {} chunks)"

section \<open>Parsing the model's response\<close>

definition SECTION_SEPARATOR :: jsstring where
  "SECTION_SEPARATOR = js ''---SECTION_SEPARATOR---''"

text \<open>
  \<open>text.split(/\s+/).length\<close>: one more than the number of maximal runs of white
  space. \<open>countRuns inWs s\<close> counts the runs that start in \<open>s\<close>, \<open>inWs\<close> telling
  whether the code unit before \<open>s\<close> was white space.
\<close>

fun countRuns :: "bool \<Rightarrow> jsstring \<Rightarrow> nat" where
  "countRuns inWs [] = 0"
| "countRuns inWs (c # cs) =
     (if isWhiteSpace c then (if inWs then 0 else 1) + countRuns True cs
      else countRuns False cs)"

text \<open>
  \<open>calculateReadingTime\<close>. \<open>minutes = wordCount / 200\<close> is below 1 exactly when
  \<open>wordCount < 200\<close>, and \<open>Math.ceil(minutes)\<close> is the integer division rounded up.
\<close>

definition calculateReadingTime :: "jsstring \<Rightarrow> jsstring" where
  "calculateReadingTime text =
     (let wordCount = countRuns False text + 1
      in if wordCount < 200 then js ''< 1 min read''
         else showNat ((wordCount + 199) div 200) @ js '' min read'')"

text \<open>
  \<open>s.replace(/^\*\*PART 1:.*?\*\*/i, '')\<close>: when \<open>s\<close> starts with the label, the lazy
  \<open>.*?\<close> runs to the first \<open>**\<close> behind it on the same line, and the match is removed;
  otherwise \<open>s\<close> is unchanged.
\<close>

fun closeStars :: "jsstring \<Rightarrow> jsstring option" where
  "closeStars [] = None"
| "closeStars (c # cs) =
     (if startsWith (c # cs) [42, 42] then Some (drop 2 (c # cs))
      else if isLineTerminator c then None
      else closeStars cs)"

definition stripPartLabel :: "jsstring \<Rightarrow> jsstring \<Rightarrow> jsstring" where
  "stripPartLabel label s =
     (if startsWithCI s label
      then (case closeStars (drop (length label) s) of Some rest \<Rightarrow> rest | None \<Rightarrow> s)
      else s)"

text \<open>
  Group 1 of \<open>answer.match(/^(.*?)(\n\n|$)/s)\<close>: the text before the first two
  consecutive line feeds, or the whole text. The match never fails.
\<close>

fun firstParagraph :: "jsstring \<Rightarrow> jsstring" where
  "firstParagraph [] = []"
| "firstParagraph (c # cs) =
     (if startsWith (c # cs) [10, 10] then [] else c # firstParagraph cs)"

record reading_time =
  rt_summary :: jsstring
  rt_detail :: jsstring

record parsed =
  p_summary :: jsstring
  p_answer :: jsstring
  p_readingTime :: reading_time

definition parseModelResponse :: "jsstring \<Rightarrow> parsed" where
  "parseModelResponse rawContent =
     (let parts = split rawContent SECTION_SEPARATOR;
          (summary, answer) =
            (case parts of
               p0 # p1 # rest \<Rightarrow>
                 (trim (stripPartLabel (js ''**PART 1:'') (trim p0)),
                  trim (stripPartLabel (js ''**PART 2:'') (trim p1)))
             | _ \<Rightarrow>
                 (let answer = trim rawContent;
                      firstPara = firstParagraph answer
                  in (if length firstPara < 500 then trim firstPara
                      else js ''Please refer to the detailed answer below.'',
                      answer)))
      in \<lparr>p_summary = summary, p_answer = answer,
          p_readingTime = \<lparr>rt_summary = calculateReadingTime summary,
                            rt_detail = calculateReadingTime answer\<rparr>\<rparr>)"

section \<open>Question validation and query expansion\<close>

record validation =
  isValid :: bool
  v_message :: "jsstring option"

definition inappropriatePatterns :: "jsstring list list" where
  "inappropriatePatterns =
     [map js [''hack'', ''crack'', ''exploit'', ''attack'', ''malware'', ''virus''],
      map js [''porn'', ''xxx'', ''sex''],
      map js [''kill'', ''murder'', ''death'', ''suicide'']]"

definition offTopicKeywords :: "jsstring list" where
  "offTopicKeywords = map js [''sports'', ''politics'', ''movie'', ''game'', ''recipe'', ''weather'']"

definition validateQuestion :: "jsstring \<Rightarrow> validation" where
  "validateQuestion question =
     (if length (trim question) < 5
      then \<lparr>isValid = False, v_message = Some (js ''Please ask a more detailed question.'')\<rparr>
      else if length (trim question) > 5000
      then \<lparr>isValid = False,
            v_message = Some (js ''Your question is too long. Please keep it under 5000 characters.'')\<rparr>
      else if list_ex (\<lambda>pattern. testWord pattern question) inappropriatePatterns
      then \<lparr>isValid = False,
            v_message = Some ([55357, 56911] @
              js '' Please ask questions related to spirituality, meditation, and Heartfulness teachings.'')\<rparr>
      else if list_ex (\<lambda>keyword. includesStr (toLowerCase question) keyword) offTopicKeywords
      then \<lparr>isValid = False,
            v_message = Some ([9878, 65039] @
              js '' I am here to help with legal research questions about Indian law. Please ask questions related to legal topics, case law, statutes, and judicial precedents.'')\<rparr>
      else \<lparr>isValid = True, v_message = None\<rparr>)"

definition generateSearchQueries :: "jsstring \<Rightarrow> jsstring list" where
  "generateSearchQueries originalQuery =
     (let lowerQuery = toLowerCase originalQuery;
          needsSimple = testAny (map js [''simple'', ''basic'', ''beginner'', ''introduction'',
                                         ''explain'', ''overview'']) originalQuery;
          topic = (if includesStr lowerQuery (js ''explain'')
                   then trim (removeAll (map js [''explain'', ''in'', ''very'', ''simple'', ''words'',
                                                 ''about'', ''the'']) originalQuery)
                   else originalQuery);
          queries1 = [originalQuery];
          queries2 = queries1 @
            (if needsSimple \<and> topic \<noteq> []
             then [js ''introduction to '' @ topic, topic @ js '' basics'', js ''what is '' @ topic,
                   topic @ js '' for beginners'', topic @ js '' overview'']
             else []);
          queries3 = queries2 @
            [originalQuery @ js '' in Heartfulness meditation spiritual practice''];
          queries4 = queries3 @
            (if includesStr lowerQuery (js ''what is'')
             then [replaceFirstCI (js ''what is'') (js ''meaning of'') originalQuery,
                   replaceFirstCI (js ''what is'') (js ''introduction to'') originalQuery]
             else []);
          queries5 = queries4 @
            (if includesStr lowerQuery (js ''how to'')
             then [replaceFirstCI (js ''how to'') (js ''practice of'') originalQuery,
                   replaceFirstCI (js ''how to'') (js ''method for'') originalQuery]
             else [])
      in queries5 @
            (if includesStr lowerQuery (js ''why'')
             then [replaceFirstCI (js ''why'') (js ''reason for'') originalQuery,
                   replaceFirstCI (js ''why'') (js ''purpose of'') originalQuery]
             else []))"

section \<open>External services\<close>

text \<open>
  The service talks to an embedding provider (the imported \<open>EmbeddingService\<close>, whose
  result has the fields \<open>embedding\<close> and \<open>tokenCount\<close>), to Supabase (the similarity
  search \<open>match_legalrnd_chunks\<close>, the tables of documents and chunks, the storage and the
  usage log) and to the completion endpoint of OpenRouter. Each of them is a parameter: a
  function from its request and the state \<open>'w\<close> of the outside world to its reply and the
  new state. A reply may depend on everything that happened before.

  A rejected promise or a thrown exception is the value \<open>Inl msg\<close>, where \<open>msg\<close> is what
  \<open>error instanceof Error ? error.message : String(error)\<close> gives for it. The Supabase
  client reports a failure in the \<open>error\<close> field of its reply and does not throw; the
  insert of the usage log stands inside its own \<open>try\<close>, so it may throw as well.

  Every function that calls a service returns its result, the new state of the world and
  the list of events it caused, in order. Timestamps (\<open>Date.now()\<close>, \<open>created_at\<close>) and
  console output are left out, but for the warning that records a failed model.
\<close>

record embedding_result =
  embedding :: "real list"
  tokenCount :: nat

datatype rpc_result = RpcError jsstring | RpcData "chunk list option"

record document =
  d_id :: jsstring
  d_title :: jsstring
  d_file_path :: "jsstring option"
  d_file_type :: "jsstring option"

text \<open>\<open>data.usage\<close> of a completion.\<close>

record usage =
  usage_prompt_tokens :: "nat option"
  usage_completion_tokens :: "nat option"
  usage_total_tokens :: "nat option"

text \<open>
  The reply to one completion request: \<open>Thrown\<close> when \<open>fetch\<close>, \<open>response.json()\<close> or
  the read of \<open>data.choices[0].message.content\<close> throws (or the content is no string, so
  that \<open>split\<close> throws); \<open>NotOk status errorText\<close> when \<open>response.ok\<close> is false;
  \<open>Completed content usage\<close> otherwise.
\<close>

datatype completion_reply =
    Thrown jsstring
  | NotOk nat jsstring
  | Completed jsstring "usage option"

text \<open>
  The prompts. \<open>systemPrompt\<close> and \<open>userPrompt\<close> are fixed instruction text around the
  question, the flag \<open>needsSimple\<close> and the source passages; the model keeps these
  variable parts, the passages as the list of their entries \<open>[Source N] From "title" by
  master, page p (relevance: r%): "content"\<close>. The rendering of the relevance with
  \<open>toFixed\<close> is not modelled: an entry keeps the similarity itself.
\<close>

record source_entry =
  s_number :: nat
  s_document_title :: jsstring
  s_master_name :: jsstring
  s_page :: "nat option"
  s_relevance :: "real option"
  s_content :: jsstring

record prompt =
  pr_question :: jsstring
  pr_needsSimple :: bool
  pr_sources :: "source_entry list"

record usage_entry =
  log_lawyer_id :: "jsstring option"
  log_model :: jsstring
  log_prompt_tokens :: nat
  log_completion_tokens :: nat
  log_total_tokens :: nat
  log_estimated_cost :: real
  log_operation_type :: jsstring
  log_query_text :: jsstring
  log_documents_used :: "jsstring list"
  log_response_preview :: "jsstring option"

datatype event =
    GenerateEmbedding jsstring
  | MatchChunks "real list"
  | SelectDocumentsByMasters "jsstring list"
  | SelectDocumentsByIds "jsstring list"
  | SelectRecentChunks
  | ChatCompletion jsstring prompt
  | ModelFailed jsstring jsstring
  | CreateSignedUrl jsstring
  | InsertUsageLog usage_entry

record 'w services =
  generateEmbedding :: "jsstring \<Rightarrow> 'w \<Rightarrow> (jsstring + embedding_result) \<times> 'w"
  match_legalrnd_chunks :: "real list \<Rightarrow> 'w \<Rightarrow> rpc_result \<times> 'w"
  select_documents_by_masters :: "jsstring list \<Rightarrow> 'w \<Rightarrow> jsstring list option \<times> 'w"
  select_documents_by_ids :: "jsstring list \<Rightarrow> 'w \<Rightarrow> document list option \<times> 'w"
  select_recent_chunks :: "'w \<Rightarrow> chunk list option \<times> 'w"
  chat_completions :: "jsstring \<Rightarrow> prompt \<Rightarrow> 'w \<Rightarrow> completion_reply \<times> 'w"
  createSignedUrl :: "jsstring \<Rightarrow> 'w \<Rightarrow> jsstring option \<times> 'w"
  insert_usage_log :: "usage_entry \<Rightarrow> 'w \<Rightarrow> (jsstring + jsstring option) \<times> 'w"

section \<open>Truthiness\<close>

text \<open>
  \<open>x || d\<close> and \<open>x ? a : b\<close> take an absent value, the empty string and the number 0
  as false.
\<close>

definition truthyStr :: "jsstring option \<Rightarrow> jsstring option" where
  "truthyStr x = (case x of None \<Rightarrow> None | Some s \<Rightarrow> if s = [] then None else Some s)"

definition truthyNat :: "nat option \<Rightarrow> nat option" where
  "truthyNat x = (case x of None \<Rightarrow> None | Some n \<Rightarrow> if n = 0 then None else Some n)"

definition truthyReal :: "real option \<Rightarrow> real option" where
  "truthyReal x = (case x of None \<Rightarrow> None | Some r \<Rightarrow> if r = 0 then None else Some r)"

definition orElse :: "'a option \<Rightarrow> 'a \<Rightarrow> 'a" where
  "orElse x d = (case x of None \<Rightarrow> d | Some v \<Rightarrow> v)"

definition nonEmptyList :: "'a list option \<Rightarrow> bool" where
  "nonEmptyList x = (case x of None \<Rightarrow> False | Some xs \<Rightarrow> xs \<noteq> [])"

text \<open>\<open>[...new Set(xs)]\<close>: the first occurrence of each element, in order.\<close>

definition setOrder :: "'a list \<Rightarrow> 'a list" where
  "setOrder xs = rev (remdups (rev xs))"

section \<open>Retrieval, scope filters and context\<close>

text \<open>
  The loop of \<open>askQuestion\<close> over the query variations. An embedding that throws ends
  the loop (the exception leaves it); a search that reports an error, or finds nothing,
  is skipped.
\<close>

fun searchLoop ::
  "'w services \<Rightarrow> jsstring list \<Rightarrow> chunk list \<Rightarrow> 'w \<Rightarrow> (jsstring + chunk list) \<times> 'w \<times> event list"
where
  "searchLoop sv [] allChunks w = (Inr allChunks, w, [])"
| "searchLoop sv (searchQuery # rest) allChunks w =
     (case generateEmbedding sv searchQuery w of
        (Inl err, w1) \<Rightarrow> (Inl err, w1, [GenerateEmbedding searchQuery])
      | (Inr queryEmbedding, w1) \<Rightarrow>
          (case match_legalrnd_chunks sv (embedding queryEmbedding) w1 of
             (reply, w2) \<Rightarrow>
               (case searchLoop sv rest
                       (case reply of
                          RpcError e \<Rightarrow> allChunks
                        | RpcData None \<Rightarrow> allChunks
                        | RpcData (Some chunks) \<Rightarrow>
                            if chunks \<noteq> [] then allChunks @ chunks else allChunks)
                       w2 of
                  (r, w3, evs) \<Rightarrow>
                    (r, w3, GenerateEmbedding searchQuery # MatchChunks (embedding queryEmbedding) # evs))))"

text \<open>The filter by \<open>selectedDocumentIds\<close> (lines 133--138 of the source).\<close>

definition filterBySelectedDocuments :: "jsstring list option \<Rightarrow> chunk list \<Rightarrow> chunk list" where
  "filterBySelectedDocuments selectedDocumentIds uniqueChunks =
     (case selectedDocumentIds of
        None \<Rightarrow> uniqueChunks
      | Some ids \<Rightarrow>
          if ids \<noteq> [] then filter (\<lambda>chunk. c_document_id chunk \<in> set ids) uniqueChunks
          else uniqueChunks)"

text \<open>The filter by \<open>selectedMasters\<close> (lines 141--155 of the source).\<close>

definition filterBySelectedMasters ::
  "'w services \<Rightarrow> jsstring list option \<Rightarrow> chunk list \<Rightarrow> 'w \<Rightarrow> chunk list \<times> 'w \<times> event list"
where
  "filterBySelectedMasters sv selectedMasters uniqueChunks w =
     (case selectedMasters of
        None \<Rightarrow> (uniqueChunks, w, [])
      | Some masters \<Rightarrow>
          if masters \<noteq> [] \<and> uniqueChunks \<noteq> [] then
            (case select_documents_by_masters sv masters w of
               (None, w1) \<Rightarrow> (uniqueChunks, w1, [SelectDocumentsByMasters masters])
             | (Some allowedDocIds, w1) \<Rightarrow>
                 (filter (\<lambda>chunk. c_document_id chunk \<in> set allowedDocIds) uniqueChunks, w1,
                  [SelectDocumentsByMasters masters]))
          else (uniqueChunks, w, []))"

text \<open>
  \<open>new Map(documents.map(d => [d.id, d]))\<close>: of two documents with one id the later
  one stays.
\<close>

definition docMap :: "document list \<Rightarrow> jsstring \<Rightarrow> document option" where
  "docMap documents = map_of (rev (map (\<lambda>d. (d_id d, d)) documents))"

definition enhanceChunksWithDocumentContext ::
  "'w services \<Rightarrow> chunk list \<Rightarrow> 'w \<Rightarrow> chunk list \<times> 'w \<times> event list"
where
  "enhanceChunksWithDocumentContext sv chunks w =
     (let documentIds = setOrder (map c_document_id chunks)
      in case select_documents_by_ids sv documentIds w of
           (None, w1) \<Rightarrow> (chunks, w1, [SelectDocumentsByIds documentIds])
         | (Some documents, w1) \<Rightarrow>
             (map (\<lambda>chunk. chunk
                     \<lparr>c_file_path := Option.bind (docMap documents (c_document_id chunk)) d_file_path,
                      c_file_type := Option.bind (docMap documents (c_document_id chunk)) d_file_type\<rparr>)
                  chunks,
              w1, [SelectDocumentsByIds documentIds]))"

definition getFallbackChunks :: "'w services \<Rightarrow> 'w \<Rightarrow> chunk list \<times> 'w \<times> event list" where
  "getFallbackChunks sv w =
     (case select_recent_chunks sv w of
        (chunks, w1) \<Rightarrow>
          (map (\<lambda>chunk. chunk
                  \<lparr>c_file_path := Option.bind (c_joined chunk) dj_file_path,
                   c_file_type := Option.bind (c_joined chunk) dj_file_type\<rparr>)
               (orElse chunks []),
           w1, [SelectRecentChunks]))"

section \<open>Generation with model fallback\<close>

text \<open>\<open>Citation\<close>; \<open>cit_chapter\<close> is its field \<open>chapter\<close>.\<close>

record citation =
  document_id :: jsstring
  document_title :: jsstring
  master_name :: jsstring
  page_number :: "nat option"
  chunk_id :: jsstring
  quote :: jsstring
  full_content :: jsstring
  similarity :: "real option"
  position_in_document :: nat
  cit_chapter :: "jsstring option"
  youtube_video_id :: "jsstring option"
  start_timestamp :: "real option"
  end_timestamp :: "real option"
  file_url :: "jsstring option"
  file_type :: jsstring

record response_metadata =
  md_model :: jsstring
  md_chunkCount :: nat
  md_embeddingModel :: jsstring
  md_totalTokens :: "nat option"

record token_usage =
  tu_embeddingTokens :: nat
  tu_promptTokens :: nat
  tu_completionTokens :: nat
  tu_totalTokens :: nat
  tu_grandTotal :: nat

text \<open>\<open>RAGResponse\<close>; \<open>debug\<close> holds the two prompts.\<close>

record rag_response =
  success :: bool
  answer :: "jsstring option"
  summary :: "jsstring option"
  citations :: "citation list option"
  reading_time :: "reading_time option"
  message :: "jsstring option"
  metadata :: "response_metadata option"
  debug :: "prompt option"
  rawResponse :: "jsstring option"
  tokenUsage :: "token_usage option"
  estimatedCost :: "real option"

text \<open>The object \<open>{ success: false, message }\<close>.\<close>

definition failure :: "jsstring option \<Rightarrow> rag_response" where
  "failure msg =
     \<lparr>success = False, answer = None, summary = None, citations = None, reading_time = None,
      message = msg, metadata = None, debug = None, rawResponse = None, tokenUsage = None,
      estimatedCost = None\<rparr>"

definition modelPriority :: "jsstring list" where
  "modelPriority =
     map js [''x-ai/grok-4.1-fast'', ''x-ai/grok-4-fast'', ''x-ai/grok-4'', ''x-ai/grok-2-1212'',
             ''x-ai/grok-beta'', ''google/gemini-2.0-flash-exp:free'', ''anthropic/claude-3-haiku'',
             ''meta-llama/llama-3.1-8b-instruct:free'']"

text \<open>
  The entries of \<open>context\<close>: \<open>chunks.map((chunk, idx) => ...)\<close>, with \<open>idx\<close> counting
  from the first argument.
\<close>

fun sourceEntries :: "nat \<Rightarrow> chunk list \<Rightarrow> source_entry list" where
  "sourceEntries idx [] = []"
| "sourceEntries idx (chunk # rest) =
     \<lparr>s_number = idx + 1,
      s_document_title = c_document_title chunk,
      s_master_name = c_master_name chunk,
      s_page = truthyNat (c_page_number chunk),
      s_relevance = truthyReal (c_similarity chunk),
      s_content = c_content chunk\<rparr> # sourceEntries (Suc idx) rest"

definition buildPrompt :: "jsstring \<Rightarrow> chunk list \<Rightarrow> prompt" where
  "buildPrompt question chunks =
     \<lparr>pr_question = question,
      pr_needsSimple = testAny (map js [''simple'', ''basic'', ''beginner'', ''easy'', ''introduction'',
                                        ''explain'', ''layman'']) question,
      pr_sources = sourceEntries 0 chunks\<rparr>"

text \<open>
  One citation: the callback of \<open>chunks.map(async (chunk, index) => ...)\<close>. A chunk with
  a non-empty \<open>file_path\<close> asks the storage for a signed URL.
\<close>

definition signFileUrl ::
  "'w services \<Rightarrow> chunk \<Rightarrow> 'w \<Rightarrow> jsstring option \<times> 'w \<times> event list"
where
  "signFileUrl sv chunk w =
     (case truthyStr (c_file_path chunk) of
        None \<Rightarrow> (None, w, [])
      | Some path \<Rightarrow>
          (case createSignedUrl sv path w of
             (signedUrl, w1) \<Rightarrow> (truthyStr signedUrl, w1, [CreateSignedUrl path])))"

definition normalizeFileType :: "chunk \<Rightarrow> jsstring" where
  "normalizeFileType chunk =
     (let fileType = orElse (truthyStr (c_file_type chunk)) (js ''text'');
          isPdf = (toLowerCase fileType = js ''pdf'' \<or>
                   toLowerCase fileType = js ''application/pdf'' \<or>
                   (case truthyStr (c_file_path chunk) of
                      None \<Rightarrow> False
                    | Some path \<Rightarrow> endsWith (toLowerCase path) (js ''.pdf'')))
      in if isPdf then js ''application/pdf'' else fileType)"

definition buildCitation ::
  "'w services \<Rightarrow> chunk \<Rightarrow> nat \<Rightarrow> 'w \<Rightarrow> citation \<times> 'w \<times> event list"
where
  "buildCitation sv chunk index w =
     (case signFileUrl sv chunk w of
        (fileUrl, w1, evs) \<Rightarrow>
          (\<lparr>document_id = c_document_id chunk,
            document_title = c_document_title chunk,
            master_name = c_master_name chunk,
            page_number = c_page_number chunk,
            chunk_id = c_id chunk,
            quote = take 200 (c_content chunk) @ (if length (c_content chunk) > 200 then js ''...'' else []),
            full_content = c_content chunk,
            similarity = c_similarity chunk,
            position_in_document = orElse (truthyNat (c_position chunk)) index,
            cit_chapter = truthyStr (c_chapter chunk),
            youtube_video_id = truthyStr (c_youtube_video_id chunk),
            start_timestamp = truthyReal (c_start_timestamp chunk),
            end_timestamp = truthyReal (c_end_timestamp chunk),
            file_url = fileUrl,
            file_type = normalizeFileType chunk\<rparr>,
           w1, evs))"

text \<open>
  \<open>Promise.all(chunks.map(...))\<close>: the callbacks start in the order of the chunks, and
  so do their requests to the storage; the result has the order of the chunks. The
  interleaving of the replies is not modelled.
\<close>

fun buildCitations ::
  "'w services \<Rightarrow> chunk list \<Rightarrow> nat \<Rightarrow> 'w \<Rightarrow> citation list \<times> 'w \<times> event list"
where
  "buildCitations sv [] index w = ([], w, [])"
| "buildCitations sv (chunk # rest) index w =
     (case buildCitation sv chunk index w of
        (c, w1, evs1) \<Rightarrow>
          (case buildCitations sv rest (Suc index) w1 of
             (cs, w2, evs2) \<Rightarrow> (c # cs, w2, evs1 @ evs2)))"

text \<open>The body of the \<open>try\<close> in the loop over the models: one attempt with one model.\<close>

definition attemptModel ::
  "'w services \<Rightarrow> chunk list \<Rightarrow> nat \<Rightarrow> prompt \<Rightarrow> jsstring \<Rightarrow> 'w \<Rightarrow>
     (jsstring + rag_response) \<times> 'w \<times> event list"
where
  "attemptModel sv chunks embeddingTokens pr model w =
     (case chat_completions sv model pr w of
        (Thrown err, w1) \<Rightarrow> (Inl err, w1, [ChatCompletion model pr])
      | (NotOk status errorText, w1) \<Rightarrow>
          (Inl (js ''API error: '' @ showNat status @ js '' - '' @ errorText), w1,
           [ChatCompletion model pr])
      | (Completed rawAnswer usage, w1) \<Rightarrow>
          (let parsedResponse = parseModelResponse rawAnswer;
               promptTokens = orElse (truthyNat (Option.bind usage usage_prompt_tokens)) 0;
               completionTokens = orElse (truthyNat (Option.bind usage usage_completion_tokens)) 0;
               totalTokens = orElse (truthyNat (Option.bind usage usage_total_tokens))
                               (promptTokens + completionTokens);
               grandTotal = embeddingTokens + totalTokens;
               costEstimate = estimateCost model grandTotal
           in case buildCitations sv chunks 0 w1 of
                (cits, w2, evs) \<Rightarrow>
                  (Inr \<lparr>success = True,
                        answer = Some (p_answer parsedResponse),
                        summary = Some (p_summary parsedResponse),
                        citations = Some cits,
                        reading_time = Some (p_readingTime parsedResponse),
                        message = None,
                        metadata = Some \<lparr>md_model = model, md_chunkCount = length chunks,
                                          md_embeddingModel = js ''text-embedding-3-small'',
                                          md_totalTokens = Some totalTokens\<rparr>,
                        debug = Some pr,
                        rawResponse = Some rawAnswer,
                        tokenUsage = Some \<lparr>tu_embeddingTokens = embeddingTokens,
                                            tu_promptTokens = promptTokens,
                                            tu_completionTokens = completionTokens,
                                            tu_totalTokens = totalTokens,
                                            tu_grandTotal = grandTotal\<rparr>,
                        estimatedCost = Some costEstimate\<rparr>,
                   w2, ChatCompletion model pr # evs)))"

text \<open>
  The loop \<open>for (const model of this.modelPriority)\<close>. A failed attempt is recorded
  (\<open>console.warn\<close>, the event \<open>ModelFailed\<close>) and kept as \<open>lastError\<close>; the first
  success returns. When no model is left the function throws.
\<close>

fun tryModels ::
  "'w services \<Rightarrow> chunk list \<Rightarrow> nat \<Rightarrow> prompt \<Rightarrow> jsstring list \<Rightarrow> jsstring option \<Rightarrow> 'w \<Rightarrow>
     (jsstring + rag_response) \<times> 'w \<times> event list"
where
  "tryModels sv chunks embeddingTokens pr [] lastError w =
     (Inl (js ''All models failed. Last error: '' @ orElse lastError (js ''undefined'')), w, [])"
| "tryModels sv chunks embeddingTokens pr (model # rest) lastError w =
     (case attemptModel sv chunks embeddingTokens pr model w of
        (Inr response, w1, evs) \<Rightarrow> (Inr response, w1, evs)
      | (Inl err, w1, evs) \<Rightarrow>
          (case tryModels sv chunks embeddingTokens pr rest (Some err) w1 of
             (r, w2, evs2) \<Rightarrow> (r, w2, evs @ ModelFailed model err # evs2)))"

definition generateResponseWithFallback ::
  "'w services \<Rightarrow> jsstring \<Rightarrow> chunk list \<Rightarrow> nat \<Rightarrow> 'w \<Rightarrow>
     (jsstring + rag_response) \<times> 'w \<times> event list"
where
  "generateResponseWithFallback sv question chunks embeddingTokens w =
     tryModels sv chunks embeddingTokens (buildPrompt question chunks) modelPriority None w"

section \<open>Usage log\<close>

text \<open>
  \<open>logAIUsage\<close> never throws: its body is a \<open>try\<close> whose \<open>catch\<close> only warns, so the
  reply of the insert is dropped. \<open>Math.ceil(response.length / 4)\<close> is the integer
  division rounded up.
\<close>

definition logAIUsage ::
  "'w services \<Rightarrow> jsstring option \<Rightarrow> jsstring \<Rightarrow> jsstring \<Rightarrow> nat \<Rightarrow> jsstring option \<Rightarrow>
     jsstring list option \<Rightarrow> real option \<Rightarrow> 'w \<Rightarrow> 'w \<times> event list"
where
  "logAIUsage sv lawyer query model tokens response documents costUSD w =
     (let promptTokens = tokens;
          completionTokens = (case truthyStr response of
                                None \<Rightarrow> 0
                              | Some r \<Rightarrow> (length r + 3) div 4);
          totalTokens = promptTokens + completionTokens;
          cost = orElseNum costUSD (estimateCost model totalTokens);
          logEntry =
            \<lparr>log_lawyer_id = lawyer,
             log_model = model,
             log_prompt_tokens = promptTokens,
             log_completion_tokens = completionTokens,
             log_total_tokens = totalTokens,
             log_estimated_cost = cost,
             log_operation_type = js ''rag_query'',
             log_query_text = query,
             log_documents_used = orElse documents [],
             log_response_preview = map_option (take 500) (truthyStr response)\<rparr>
      in case insert_usage_log sv logEntry w of
           (reply, w1) \<Rightarrow> (w1, [InsertUsageLog logEntry]))"

section \<open>askQuestion\<close>

record ask_options =
  lawyerId :: "jsstring option"
  preceptorId :: "jsstring option"
  selectedDocumentIds :: "jsstring list option"
  selectedMasters :: "jsstring list option"
  sessionId :: "jsstring option"

definition selectedDocumentsMessage :: jsstring where
  "selectedDocumentsMessage =
     [9878, 65039] @
     js '' I could not find relevant information in the selected legal documents to answer your question. Please try:'' @
     [10] @ js ''- Asking a different legal question'' @
     [10] @ js ''- Selecting additional documents'' @
     [10] @ js ''- Rephrasing your question with different legal keywords''"

definition selectedMastersMessage :: jsstring where
  "selectedMastersMessage =
     [9878, 65039] @
     js '' I could not find relevant information from the selected legal category to answer your question. Please try:'' @
     [10] @ js ''- Asking a different legal question'' @
     [10] @ js ''- Selecting additional legal categories'' @
     [10] @ js ''- Rephrasing your question with different legal keywords''"

definition noInformationMessage :: jsstring where
  "noInformationMessage =
     [9878, 65039] @
     js '' I apologize, but I could not find relevant information in the available legal documents to answer your question. Please try rephrasing your question or ask about topics related to Indian law, case law, statutes, and judicial precedents available in the system.''"

text \<open>The \<open>catch\<close> of \<open>askQuestion\<close>.\<close>

definition caught :: "jsstring \<Rightarrow> rag_response" where
  "caught errorMessage = failure (Some ([55357, 56911] @ js '' An error occurred: '' @ errorMessage))"

text \<open>
  Steps 2 to 4 of \<open>askQuestion\<close>: the embedding of the question, the searches, the
  deduplication, the two scope filters and the document context. \<open>Inl\<close> is an exception
  on its way to the \<open>catch\<close>.
\<close>

definition retrieveChunks ::
  "'w services \<Rightarrow> jsstring \<Rightarrow> ask_options \<Rightarrow> 'w \<Rightarrow>
     (jsstring + embedding_result \<times> chunk list) \<times> 'w \<times> event list"
where
  "retrieveChunks sv question opts w =
     (case generateEmbedding sv question w of
        (Inl err, w1) \<Rightarrow> (Inl err, w1, [GenerateEmbedding question])
      | (Inr embeddingResult, w1) \<Rightarrow>
          (case searchLoop sv (generateSearchQueries question) [] w1 of
             (Inl err, w2, evs2) \<Rightarrow> (Inl err, w2, GenerateEmbedding question # evs2)
           | (Inr allChunks, w2, evs2) \<Rightarrow>
               (case filterBySelectedMasters sv (selectedMasters opts)
                       (filterBySelectedDocuments (selectedDocumentIds opts)
                          (deduplicateChunks allChunks)) w2 of
                  (uniqueChunks, w3, evs3) \<Rightarrow>
                    (case enhanceChunksWithDocumentContext sv uniqueChunks w3 of
                       (enhancedChunks, w4, evs4) \<Rightarrow>
                         (Inr (embeddingResult, enhancedChunks), w4,
                          GenerateEmbedding question # evs2 @ evs3 @ evs4)))))"

text \<open>
  \<open>askQuestion\<close>. The result \<open>Inr r\<close> is a promise fulfilled with \<open>r\<close>, \<open>Inl msg\<close> a
  rejected one. The generation over the retrieved chunks is awaited inside the \<open>try\<close>,
  so its exception is caught; the generation over the fallback chunks is returned
  without \<open>await\<close>, so its rejection is the rejection of \<open>askQuestion\<close>.
\<close>

definition askQuestion ::
  "'w services \<Rightarrow> jsstring \<Rightarrow> ask_options \<Rightarrow> 'w \<Rightarrow> (jsstring + rag_response) \<times> 'w \<times> event list"
where
  "askQuestion sv question opts w =
     (let userId = (case truthyStr (lawyerId opts) of Some l \<Rightarrow> Some l | None \<Rightarrow> preceptorId opts);
          validation = validateQuestion question
      in if \<not> isValid validation then (Inr (failure (v_message validation)), w, [])
         else
           (case retrieveChunks sv question opts w of
              (Inl err, w1, evs1) \<Rightarrow> (Inr (caught err), w1, evs1)
            | (Inr (embeddingResult, enhancedChunks), w1, evs1) \<Rightarrow>
                if enhancedChunks = [] then
                  (if nonEmptyList (selectedDocumentIds opts)
                   then (Inr (failure (Some selectedDocumentsMessage)), w1, evs1)
                   else if nonEmptyList (selectedMasters opts)
                   then (Inr (failure (Some selectedMastersMessage)), w1, evs1)
                   else
                     (case getFallbackChunks sv w1 of
                        (fallbackChunks, w2, evs2) \<Rightarrow>
                          if fallbackChunks = []
                          then (Inr (failure (Some noInformationMessage)), w2, evs1 @ evs2)
                          else
                            (case generateResponseWithFallback sv question fallbackChunks
                                    (tokenCount embeddingResult) w2 of
                               (r, w3, evs3) \<Rightarrow> (r, w3, evs1 @ evs2 @ evs3))))
                else
                  (case generateResponseWithFallback sv question enhancedChunks
                          (tokenCount embeddingResult) w1 of
                     (Inl err, w2, evs2) \<Rightarrow> (Inr (caught err), w2, evs1 @ evs2)
                   | (Inr response, w2, evs2) \<Rightarrow>
                       (case logAIUsage sv (truthyStr userId) question
                               (orElse (truthyStr (map_option md_model (metadata response))) (js ''unknown''))
                               (tokenCount embeddingResult +
                                orElse (truthyNat (Option.bind (metadata response) md_totalTokens)) 0)
                               (answer response)
                               (Some (setOrder (map c_document_title enhancedChunks)))
                               None w2 of
                          (w3, evs3) \<Rightarrow> (Inr response, w3, evs1 @ evs2 @ evs3)))))"

section \<open>Observations on a run\<close>

text \<open>What a list of events says about the models: which were asked, which failed.\<close>

fun requestedModels :: "event list \<Rightarrow> jsstring list" where
  "requestedModels [] = []"
| "requestedModels (ChatCompletion model pr # evs) = model # requestedModels evs"
| "requestedModels (e # evs) = requestedModels evs"

fun failedModels :: "event list \<Rightarrow> jsstring list" where
  "failedModels [] = []"
| "failedModels (ModelFailed model err # evs) = model # failedModels evs"
| "failedModels (e # evs) = failedModels evs"

fun loggedEntries :: "event list \<Rightarrow> usage_entry list" where
  "loggedEntries [] = []"
| "loggedEntries (InsertUsageLog entry # evs) = entry # loggedEntries evs"
| "loggedEntries (e # evs) = loggedEntries evs"

text \<open>
  \<open>attemptsFail sv chunks tokens pr models w\<close>: each of \<open>models\<close>, tried in order from
  the state \<open>w\<close>, fails; the result is the state after the last of them.
\<close>

fun attemptsFail ::
  "'w services \<Rightarrow> chunk list \<Rightarrow> nat \<Rightarrow> prompt \<Rightarrow> jsstring list \<Rightarrow> 'w \<Rightarrow> 'w option"
where
  "attemptsFail sv chunks embeddingTokens pr [] w = Some w"
| "attemptsFail sv chunks embeddingTokens pr (model # rest) w =
     (case attemptModel sv chunks embeddingTokens pr model w of
        (Inl err, w1, evs) \<Rightarrow> attemptsFail sv chunks embeddingTokens pr rest w1
      | (Inr response, w1, evs) \<Rightarrow> None)"

text \<open>
  The specification's "embedding tokens consumed across all variant searches": the sum
  of the token counts of the embeddings that the search loop requests for the query
  variations.
\<close>

fun variantSearchTokens :: "'w services \<Rightarrow> jsstring list \<Rightarrow> 'w \<Rightarrow> nat" where
  "variantSearchTokens sv [] w = 0"
| "variantSearchTokens sv (searchQuery # rest) w =
     (case generateEmbedding sv searchQuery w of
        (Inl err, w1) \<Rightarrow> 0
      | (Inr queryEmbedding, w1) \<Rightarrow>
          tokenCount queryEmbedding +
          variantSearchTokens sv rest (snd (match_legalrnd_chunks sv (embedding queryEmbedding) w1)))"

section \<open>Example services\<close>

text \<open>
  A small outside world for the concrete instances below. Its state counts the
  completion requests made so far: the first \<open>failures\<close> requests are answered with
  status 503, each later one with a two-part completion. Every search finds \<open>found\<close>, the
  table of chunks holds \<open>recent\<close>, an embedding costs one token per code unit of its
  text, and the lookups of documents return no data.
\<close>

definition exampleChunk :: "jsstring \<Rightarrow> jsstring \<Rightarrow> real \<Rightarrow> jsstring \<Rightarrow> chunk" where
  "exampleChunk ident doc sim content =
     \<lparr>c_id = ident, c_document_id = doc, c_document_title = js ''Bail Act'',
      c_master_name = js ''Criminal Law'', c_page_number = Some 3, c_content = content,
      c_similarity = Some sim, c_position = None, c_chapter = None,
      c_youtube_video_id = None, c_start_timestamp = None, c_end_timestamp = None,
      c_file_path = Some (js ''acts/bail.PDF''), c_file_type = None, c_joined = None\<rparr>"

definition exampleServices :: "nat \<Rightarrow> chunk list \<Rightarrow> chunk list \<Rightarrow> nat services" where
  "exampleServices failures found recent =
     \<lparr>generateEmbedding = (\<lambda>text w. (Inr \<lparr>embedding = [], tokenCount = length text\<rparr>, w)),
      match_legalrnd_chunks = (\<lambda>v w. (RpcData (Some found), w)),
      select_documents_by_masters = (\<lambda>masters w. (None, w)),
      select_documents_by_ids = (\<lambda>ids w. (None, w)),
      select_recent_chunks = (\<lambda>w. (Some recent, w)),
      chat_completions = (\<lambda>model pr w.
        (if w < failures then NotOk 503 (js ''busy'')
         else Completed (js ''Bail is release.---SECTION_SEPARATOR---## Detail'')
                (Some \<lparr>usage_prompt_tokens = Some 90, usage_completion_tokens = Some 10,
                       usage_total_tokens = Some 100\<rparr>),
         Suc w)),
      createSignedUrl = (\<lambda>path w. (Some (js ''https://storage/'' @ path), w)),
      insert_usage_log = (\<lambda>entry w. (Inr None, w))\<rparr>"

text \<open>The same world, but the lookup of the documents of a category returns \<open>doc-9\<close>.\<close>

definition categoryServices :: "nat services" where
  "categoryServices =
     (exampleServices 0 [] [])
       \<lparr>select_documents_by_masters := (\<lambda>masters w. (Some [js ''doc-9''], w))\<rparr>"

definition noOptions :: ask_options where
  "noOptions = \<lparr>lawyerId = None, preceptorId = None, selectedDocumentIds = None,
                selectedMasters = None, sessionId = None\<rparr>"

definition exampleQuestion :: jsstring where
  "exampleQuestion = js ''What is bail?''"

definition bailChunk :: chunk where
  "bailChunk = exampleChunk (js ''a'') (js ''doc-1'') 0.4 (js ''Bail is the rule.'')"

definition longChunk :: chunk where
  "longChunk = exampleChunk (js ''b'') (js ''doc-2'') 0.9 (replicate 250 97)"

definition scopedOptions :: ask_options where
  "scopedOptions = noOptions\<lparr>selectedDocumentIds := Some [js ''doc-9'']\<rparr>"

text \<open>The example of the specification for the deduplication, and two raw completions.\<close>

definition pooledChunks :: "chunk list" where
  "pooledChunks =
     [exampleChunk (js ''a'') (js ''doc-1'') 0.4 [],
      exampleChunk (js ''b'') (js ''doc-1'') 0.9 [],
      exampleChunk (js ''a'') (js ''doc-1'') 0.99 []]"

definition degradedCompletion :: jsstring where
  "degradedCompletion = js ''No separator here.'' @ [10, 10] @ js ''More text.''"

definition paddedCompletion :: jsstring where
  "paddedCompletion = js ''Hi '' @ [10, 10] @ js ''More text.''"

text \<open>The definitions that evaluate strings, for the concrete instances.\<close>

lemmas string_defs =
  js_def trim_def isWhiteSpace_def isLineTerminator_def isWordChar_def foldUnit_def
  lowerUnit_def toLowerCase_def endsWith_def startsWithCI_def split_def removeAll_def
  isWordOpt_def unitAt_def wordMatchHere_def testWord_def

lemmas value_defs =
  truthyStr_def truthyNat_def truthyReal_def orElse_def orElseNum_def nonEmptyList_def
  setOrder_def

lemmas pipeline_defs =
  askQuestion_def retrieveChunks_def validateQuestion_def inappropriatePatterns_def
  offTopicKeywords_def generateSearchQueries_def deduplicateChunks_def similarityOrZero_def
  filterBySelectedDocuments_def filterBySelectedMasters_def enhanceChunksWithDocumentContext_def
  getFallbackChunks_def generateResponseWithFallback_def modelPriority_def attemptModel_def
  buildPrompt_def buildCitation_def signFileUrl_def normalizeFileType_def logAIUsage_def
  parseModelResponse_def SECTION_SEPARATOR_def stripPartLabel_def calculateReadingTime_def
  estimateCost_def costPer1M_def failure_def caught_def showNat.simps Let_def

lemmas example_defs =
  exampleServices_def exampleChunk_def noOptions_def exampleQuestion_def bailChunk_def

section \<open>Theorems\<close>

subsection \<open>Cost estimate\<close>

text \<open>
  C1 (as the code behaves): a model whose configured rate is zero is not free. For
  \<open>google/gemini-2.0-flash-exp:free\<close>, whose table entry is 0, one million tokens are
  estimated at 1.0: the zero entry is falsy, so the default rate 1.0 of unknown models
  applies.
\<close>

theorem estimateCost_zero_rate_charged:
  "map_of costPer1M (js ''google/gemini-2.0-flash-exp:free'') = Some 0 \<and>
   estimateCost (js ''google/gemini-2.0-flash-exp:free'') 1000000 = 1"
  by (simp add: estimateCost_def orElseNum_def costPer1M_def js_def)

subsection \<open>Deduplication\<close>

lemma dedupFilter_ids: "set (map c_id (dedupFilter seen cs)) = set (map c_id cs) - seen"
  by (induction cs arbitrary: seen) auto

lemma dedupFilter_unseen: "c \<in> set (dedupFilter seen cs) \<Longrightarrow> c_id c \<notin> seen"
  using dedupFilter_ids [of seen cs] by (metis DiffD2 image_eqI list.set_map)

lemma dedupFilter_distinct: "distinct (map c_id (dedupFilter seen cs))"
  by (induction cs arbitrary: seen) (auto dest: dedupFilter_unseen)

lemma dedupFilter_first:
  "c \<in> set (dedupFilter seen cs) \<Longrightarrow> List.find (\<lambda>d. c_id d = c_id c) cs = Some c"
  by (induction cs arbitrary: seen) (auto split: if_splits dest: dedupFilter_unseen)

lemma distinct_map_sort_key: "distinct (map f (sort_key k xs)) = distinct (map f xs)"
proof -
  have "mset (map f (sort_key k xs)) = mset (map f xs)" by simp
  then show ?thesis by (rule mset_eq_imp_distinct_iff)
qed

lemma sorted_desc_sort_key:
  "sorted_wrt (\<lambda>x y. f x \<ge> f y) (sort_key (\<lambda>c. - f c) (xs :: 'a list))" for f :: "'a \<Rightarrow> real"
proof -
  have "sorted (map (\<lambda>c. - f c) (sort_key (\<lambda>c. - f c) xs))" by (rule sorted_sort_key)
  then show ?thesis by (simp add: sorted_map)
qed

text \<open>
  C3: \<open>deduplicateChunks\<close> keeps one chunk per id, namely the first chunk of the pool
  with that id (so its similarity is that of the first sighting), keeps every id of the
  pool, and returns the survivors in descending order of similarity, a missing similarity
  counting as 0. For the pool \<open>[a 0.4, b 0.9, a 0.99]\<close> the result is \<open>[b 0.9, a 0.4]\<close>.
\<close>

theorem deduplicateChunks_first_seen_sorted:
  "distinct (map c_id (deduplicateChunks chunks)) \<and>
   set (map c_id (deduplicateChunks chunks)) = set (map c_id chunks) \<and>
   (\<forall>c \<in> set (deduplicateChunks chunks). List.find (\<lambda>d. c_id d = c_id c) chunks = Some c) \<and>
   sorted_wrt (\<lambda>x y. similarityOrZero x \<ge> similarityOrZero y) (deduplicateChunks chunks) \<and>
   map (\<lambda>c. (c_id c, c_similarity c)) (deduplicateChunks pooledChunks) =
     [(js ''b'', Some 0.9), (js ''a'', Some 0.4)]"
proof -
  have 1: "distinct (map c_id (deduplicateChunks chunks))"
    by (simp add: deduplicateChunks_def distinct_map_sort_key dedupFilter_distinct)
  have 2: "set (map c_id (deduplicateChunks chunks)) = set (map c_id chunks)"
    using dedupFilter_ids [of "{}" chunks] by (simp add: deduplicateChunks_def)
  have 3: "\<forall>c \<in> set (deduplicateChunks chunks). List.find (\<lambda>d. c_id d = c_id c) chunks = Some c"
    using dedupFilter_first [of _ "{}" chunks] by (simp add: deduplicateChunks_def)
  have 4: "sorted_wrt (\<lambda>x y. similarityOrZero x \<ge> similarityOrZero y) (deduplicateChunks chunks)"
    unfolding deduplicateChunks_def by (rule sorted_desc_sort_key)
  have 5: "map (\<lambda>c. (c_id c, c_similarity c)) (deduplicateChunks pooledChunks) =
             [(js ''b'', Some 0.9), (js ''a'', Some 0.4)]"
    by (simp add: deduplicateChunks_def pooledChunks_def exampleChunk_def js_def
        similarityOrZero_def orElseNum_def)
  from 1 2 3 4 5 show ?thesis by blast
qed

text \<open>The theorem at the pool of the specification's example.\<close>

theorem deduplicateChunks_first_seen_sorted_witness:
  "distinct (map c_id (deduplicateChunks pooledChunks)) \<and>
   map c_similarity (deduplicateChunks pooledChunks) = [Some 0.9, Some 0.4] \<and>
   List.find (\<lambda>d. c_id d = js ''a'') pooledChunks = Some (exampleChunk (js ''a'') (js ''doc-1'') 0.4 [])"
  using deduplicateChunks_first_seen_sorted [of pooledChunks]
  by (simp add: deduplicateChunks_def pooledChunks_def exampleChunk_def js_def
      similarityOrZero_def orElseNum_def)

subsection \<open>Parsing a completion without separator\<close>

lemma splitGo_absent:
  "sep \<noteq> [] \<Longrightarrow> \<not> includesStr s sep \<Longrightarrow> splitGo sep 0 cur s = [rev cur @ s]"
  by (induction s arbitrary: cur) auto

text \<open>
  \<open>firstParagraph\<close> is the text up to the first double line break: a prefix with no
  double line break in it, behind which the text ends or a double line break follows.
\<close>

lemma firstParagraph_prefix:
  "\<exists>rest. s = firstParagraph s @ rest \<and> (rest = [] \<or> startsWith rest [10, 10])"
  by (induction s) auto

lemma firstParagraph_no_break: "\<not> includesStr (firstParagraph s) [10, 10]"
proof (induction s)
  case Nil
  then show ?case by simp
next
  case (Cons c cs)
  then show ?case by (cases cs) (auto split: if_splits)
qed

text \<open>
  C8 (amended): for a raw completion that does not contain the separator,
  \<open>parseModelResponse\<close> returns (it is a total function, so it cannot raise) the trimmed
  input as answer and, as summary, the first paragraph of the answer with the white space
  around it trimmed when that paragraph has fewer than 500 code units, the placeholder
  otherwise. For the specification's example the summary is \<open>No separator here.\<close> and the
  answer is the whole input.
\<close>

theorem parseModelResponse_without_separator:
  assumes "\<not> includesStr rawContent SECTION_SEPARATOR"
  shows "p_answer (parseModelResponse rawContent) = trim rawContent \<and>
         p_summary (parseModelResponse rawContent) =
           (if length (firstParagraph (trim rawContent)) < 500
            then trim (firstParagraph (trim rawContent))
            else js ''Please refer to the detailed answer below.'') \<and>
         p_summary (parseModelResponse degradedCompletion) = js ''No separator here.'' \<and>
         p_answer (parseModelResponse degradedCompletion) = degradedCompletion"
proof -
  have sep: "SECTION_SEPARATOR \<noteq> []" by (simp add: SECTION_SEPARATOR_def js_def)
  have general: "p_answer (parseModelResponse raw) = trim raw \<and>
         p_summary (parseModelResponse raw) =
           (if length (firstParagraph (trim raw)) < 500
            then trim (firstParagraph (trim raw))
            else js ''Please refer to the detailed answer below.'')"
    if "\<not> includesStr raw SECTION_SEPARATOR" for raw
  proof -
    from sep that have "split raw SECTION_SEPARATOR = [raw]"
      by (simp add: split_def splitGo_absent)
    then show ?thesis by (simp add: parseModelResponse_def Let_def)
  qed
  have "\<not> includesStr degradedCompletion SECTION_SEPARATOR"
    by (simp add: degradedCompletion_def js_def SECTION_SEPARATOR_def)
  from general [OF this]
  have "p_summary (parseModelResponse degradedCompletion) = js ''No separator here.''"
    and "p_answer (parseModelResponse degradedCompletion) = degradedCompletion"
    by (simp_all add: degradedCompletion_def js_def trim_def isWhiteSpace_def)
  with general [OF assms] show ?thesis by simp
qed

theorem parseModelResponse_without_separator_witness:
  "\<not> includesStr degradedCompletion SECTION_SEPARATOR \<and>
   p_answer (parseModelResponse degradedCompletion) = trim degradedCompletion \<and>
   p_summary (parseModelResponse degradedCompletion) = js ''No separator here.''"
proof -
  have h: "\<not> includesStr degradedCompletion SECTION_SEPARATOR"
    by (simp add: degradedCompletion_def js_def SECTION_SEPARATOR_def)
  from h parseModelResponse_without_separator [OF h] show ?thesis by blast
qed

text \<open>
  The claim as stated fails where the first paragraph ends in white space: for the
  input \<open>Hi \<close> followed by a double line break and \<open>More text.\<close> there is no
  separator, the first paragraph is \<open>Hi \<close> (3 code units, so under 500), and the summary
  is \<open>Hi\<close>.
\<close>

theorem parseModelResponse_summary_counterexample:
  "\<not> includesStr paddedCompletion SECTION_SEPARATOR \<and>
   firstParagraph (trim paddedCompletion) = js ''Hi '' \<and>
   length (firstParagraph (trim paddedCompletion)) < 500 \<and>
   p_summary (parseModelResponse paddedCompletion) = js ''Hi'' \<and>
   p_summary (parseModelResponse paddedCompletion) \<noteq> firstParagraph (trim paddedCompletion)"
  by (simp add: paddedCompletion_def parseModelResponse_def SECTION_SEPARATOR_def split_def
      js_def trim_def isWhiteSpace_def Let_def)

subsection \<open>What the stages of a run do to the outside world\<close>

lemma requestedModels_append: "requestedModels (xs @ ys) = requestedModels xs @ requestedModels ys"
  by (induction xs rule: requestedModels.induct) simp_all

lemma failedModels_append: "failedModels (xs @ ys) = failedModels xs @ failedModels ys"
  by (induction xs rule: failedModels.induct) simp_all

lemma loggedEntries_append: "loggedEntries (xs @ ys) = loggedEntries xs @ loggedEntries ys"
  by (induction xs rule: loggedEntries.induct) simp_all

lemma loggedEntries_set: "(InsertUsageLog entry \<in> set evs) = (entry \<in> set (loggedEntries evs))"
  by (induction evs rule: loggedEntries.induct) auto

lemma signing_only:
  assumes "set evs \<subseteq> range CreateSignedUrl"
  shows "requestedModels evs = [] \<and> failedModels evs = [] \<and> loggedEntries evs = [] \<and>
         SelectRecentChunks \<notin> set evs"
  using assms by (induction evs) auto

lemma signFileUrl_events:
  "signFileUrl sv chunk w = (u, w', evs) \<Longrightarrow> set evs \<subseteq> range CreateSignedUrl"
  by (auto simp: signFileUrl_def split: option.splits prod.splits)

lemma buildCitation_events:
  "buildCitation sv chunk i w = (c, w', evs) \<Longrightarrow> set evs \<subseteq> range CreateSignedUrl"
  by (auto simp: buildCitation_def split: prod.splits dest: signFileUrl_events)

lemma buildCitations_events:
  "buildCitations sv chunks i w = (cs, w', evs) \<Longrightarrow> set evs \<subseteq> range CreateSignedUrl"
proof (induction chunks arbitrary: i w cs w' evs)
  case Nil
  then show ?case by simp
next
  case (Cons chunk rest)
  obtain c w1 evs1 where b: "buildCitation sv chunk i w = (c, w1, evs1)"
    by (cases "buildCitation sv chunk i w") auto
  obtain cs2 w2 evs2 where r: "buildCitations sv rest (Suc i) w1 = (cs2, w2, evs2)"
    by (cases "buildCitations sv rest (Suc i) w1") auto
  from Cons.prems b r have "evs = evs1 @ evs2" by simp
  with buildCitation_events [OF b] Cons.IH [OF r] show ?case by auto
qed

lemma attemptModel_events:
  assumes "attemptModel sv chunks tok pr model w = (res, w', evs)"
  shows "\<exists>evs'. evs = ChatCompletion model pr # evs' \<and> set evs' \<subseteq> range CreateSignedUrl"
proof (cases "chat_completions sv model pr w")
  case (Pair reply w1)
  show ?thesis
  proof (cases reply)
    case (Thrown err)
    with Pair assms show ?thesis by (auto simp: attemptModel_def)
  next
    case (NotOk st body)
    with Pair assms show ?thesis by (auto simp: attemptModel_def)
  next
    case (Completed raw usage)
    obtain cits w2 evs2 where b: "buildCitations sv chunks 0 w1 = (cits, w2, evs2)"
      by (cases "buildCitations sv chunks 0 w1") auto
    with Pair Completed assms have "evs = ChatCompletion model pr # evs2"
      by (simp add: attemptModel_def Let_def)
    with buildCitations_events [OF b] show ?thesis by simp
  qed
qed

lemma attemptModel_observed:
  assumes "attemptModel sv chunks tok pr model w = (res, w', evs)"
  shows "requestedModels evs = [model] \<and> failedModels evs = [] \<and> loggedEntries evs = [] \<and>
         SelectRecentChunks \<notin> set evs"
  using attemptModel_events [OF assms] signing_only by fastforce

lemma tryModels_observed:
  "tryModels sv chunks tok pr models lastError w = (res, w', evs) \<Longrightarrow>
     loggedEntries evs = [] \<and> SelectRecentChunks \<notin> set evs"
proof (induction models arbitrary: lastError w res w' evs)
  case Nil
  then show ?case by simp
next
  case (Cons model rest)
  obtain a w1 evs1 where a: "attemptModel sv chunks tok pr model w = (a, w1, evs1)"
    by (cases "attemptModel sv chunks tok pr model w") auto
  note o = attemptModel_observed [OF a]
  show ?case
  proof (cases a)
    case (Inr response)
    with a Cons.prems o show ?thesis by simp
  next
    case (Inl err)
    obtain r w2 evs2 where t: "tryModels sv chunks tok pr rest (Some err) w1 = (r, w2, evs2)"
      by (cases "tryModels sv chunks tok pr rest (Some err) w1") auto
    from a Inl t Cons.prems have "evs = evs1 @ ModelFailed model err # evs2" by simp
    with o Cons.IH [OF t] show ?thesis by (simp add: loggedEntries_append)
  qed
qed

lemma searchLoop_events:
  "searchLoop sv queries allChunks w = (res, w', evs) \<Longrightarrow>
     loggedEntries evs = [] \<and> SelectRecentChunks \<notin> set evs"
proof (induction queries arbitrary: allChunks w res w' evs)
  case Nil
  then show ?case by simp
next
  case (Cons searchQuery rest)
  obtain e w1 where e: "generateEmbedding sv searchQuery w = (e, w1)"
    by (cases "generateEmbedding sv searchQuery w") auto
  show ?case
  proof (cases e)
    case (Inl err)
    with e Cons.prems show ?thesis by auto
  next
    case (Inr queryEmbedding)
    obtain reply w2 where m: "match_legalrnd_chunks sv (embedding queryEmbedding) w1 = (reply, w2)"
      by (cases "match_legalrnd_chunks sv (embedding queryEmbedding) w1") auto
    define acc where "acc = (case reply of
                          RpcError e \<Rightarrow> allChunks
                        | RpcData None \<Rightarrow> allChunks
                        | RpcData (Some chunks) \<Rightarrow>
                            if chunks \<noteq> [] then allChunks @ chunks else allChunks)"
    obtain r w3 evs3 where s: "searchLoop sv rest acc w2 = (r, w3, evs3)"
      by (cases "searchLoop sv rest acc w2") auto
    from e Inr m s Cons.prems
    have "evs = GenerateEmbedding searchQuery # MatchChunks (embedding queryEmbedding) # evs3"
      by (simp add: acc_def)
    with Cons.IH [OF s] show ?thesis by simp
  qed
qed

lemma filterBySelectedMasters_events:
  "filterBySelectedMasters sv sel chunks w = (res, w', evs) \<Longrightarrow>
     loggedEntries evs = [] \<and> SelectRecentChunks \<notin> set evs"
  by (auto simp: filterBySelectedMasters_def split: option.splits if_splits prod.splits)

lemma enhance_events:
  "enhanceChunksWithDocumentContext sv chunks w = (res, w', evs) \<Longrightarrow>
     loggedEntries evs = [] \<and> SelectRecentChunks \<notin> set evs"
  by (auto simp: enhanceChunksWithDocumentContext_def Let_def split: option.splits prod.splits)

lemma retrieveChunks_events:
  assumes "retrieveChunks sv question opts w = (res, w', evs)"
  shows "loggedEntries evs = [] \<and> SelectRecentChunks \<notin> set evs"
proof (cases "generateEmbedding sv question w")
  case (Pair e w1)
  show ?thesis
  proof (cases e)
    case (Inl err)
    with Pair assms show ?thesis by (auto simp: retrieveChunks_def)
  next
    case (Inr embeddingResult)
    obtain s w2 evs2 where s: "searchLoop sv (generateSearchQueries question) [] w1 = (s, w2, evs2)"
      by (cases "searchLoop sv (generateSearchQueries question) [] w1") auto
    note e2 = searchLoop_events [OF s]
    show ?thesis
    proof (cases s)
      case (Inl err)
      with Pair Inr s assms e2 show ?thesis by (auto simp: retrieveChunks_def)
    next
      case (Inr allChunks)
      obtain u w3 evs3 where f: "filterBySelectedMasters sv (selectedMasters opts)
                       (filterBySelectedDocuments (selectedDocumentIds opts)
                          (deduplicateChunks allChunks)) w2 = (u, w3, evs3)"
        by (cases "filterBySelectedMasters sv (selectedMasters opts)
                       (filterBySelectedDocuments (selectedDocumentIds opts)
                          (deduplicateChunks allChunks)) w2") auto
      obtain en w4 evs4 where en: "enhanceChunksWithDocumentContext sv u w3 = (en, w4, evs4)"
        by (cases "enhanceChunksWithDocumentContext sv u w3") auto
      from Pair \<open>e = Inr embeddingResult\<close> s Inr f en assms
      have "evs = GenerateEmbedding question # evs2 @ evs3 @ evs4"
        by (simp add: retrieveChunks_def)
      with e2 filterBySelectedMasters_events [OF f] enhance_events [OF en]
      show ?thesis by (simp add: loggedEntries_append)
    qed
  qed
qed

lemma generate_observed:
  "generateResponseWithFallback sv question chunks tok w = (res, w', evs) \<Longrightarrow>
     loggedEntries evs = [] \<and> SelectRecentChunks \<notin> set evs"
  unfolding generateResponseWithFallback_def by (rule tryModels_observed)

lemma logAIUsage_events:
  "logAIUsage sv lawyer query model tokens response documents costUSD w = (w', evs) \<Longrightarrow>
     \<exists>entry. evs = [InsertUsageLog entry]"
  by (auto simp: logAIUsage_def Let_def split: prod.splits)

lemma getFallbackChunks_events:
  "getFallbackChunks sv w = (res, w', evs) \<Longrightarrow> loggedEntries evs = []"
  by (auto simp: getFallbackChunks_def split: prod.splits)

subsection \<open>The example world\<close>

lemma example_valid: "isValid (validateQuestion exampleQuestion)"
  by (simp add: exampleQuestion_def validateQuestion_def inappropriatePatterns_def
      offTopicKeywords_def string_defs)

lemma example_retrieve_scoped:
  "fst (retrieveChunks (exampleServices 0 [bailChunk] []) exampleQuestion scopedOptions 0) =
     Inr (\<lparr>embedding = [], tokenCount = 13\<rparr>, [])"
  by (simp add: retrieveChunks_def generateSearchQueries_def deduplicateChunks_def
      similarityOrZero_def filterBySelectedDocuments_def filterBySelectedMasters_def
      enhanceChunksWithDocumentContext_def Let_def scopedOptions_def example_defs string_defs value_defs)

lemma example_attempt_fails:
  "w < failures \<Longrightarrow>
     attemptModel (exampleServices failures found recent) chunks tok pr model w =
       (Inl (js ''API error: 503 - busy''), Suc w, [ChatCompletion model pr])"
  by (simp add: attemptModel_def exampleServices_def showNat.simps js_def)

lemma example_all_fail:
  "w + length models \<le> failures \<Longrightarrow>
     fst (tryModels (exampleServices failures found recent) chunks tok pr models lastError w) =
       Inl (js ''All models failed. Last error: '' @
            (if models = [] then orElse lastError (js ''undefined'') else js ''API error: 503 - busy''))"
proof (induction models arbitrary: w lastError)
  case Nil
  then show ?case by simp
next
  case (Cons model rest)
  then have w: "w < failures" and r: "Suc w + length rest \<le> failures" by simp_all
  from Cons.IH [OF r, of "Some (js ''API error: 503 - busy'')"] example_attempt_fails [OF w]
  show ?case by (simp add: split_beta orElse_def)
qed

lemma example_generate_all_fail:
  "fst (generateResponseWithFallback (exampleServices 8 found recent) question chunks tok 0) =
     Inl (js ''All models failed. Last error: API error: 503 - busy'')"
proof -
  have "0 + length modelPriority \<le> (8::nat)" by (simp add: modelPriority_def)
  from example_all_fail [OF this, of found recent chunks tok "buildPrompt question chunks" None]
  show ?thesis by (simp add: generateResponseWithFallback_def modelPriority_def js_def)
qed

lemma example_run_logged:
  "map log_prompt_tokens
     (loggedEntries (snd (snd (askQuestion (exampleServices 0 [bailChunk] []) exampleQuestion
                                 noOptions 0)))) = [113]"
  by (simp add: pipeline_defs example_defs string_defs value_defs)

lemma example_run_direct:
  "SelectRecentChunks \<notin>
     set (snd (snd (askQuestion (exampleServices 0 [bailChunk] []) exampleQuestion noOptions 0)))"
  by (simp add: pipeline_defs example_defs string_defs value_defs)

lemma example_run_completion:
  "map log_completion_tokens
     (loggedEntries (snd (snd (askQuestion (exampleServices 0 [bailChunk] []) exampleQuestion
                                 noOptions 0)))) = [3] \<and>
   map_sum id (map_option length \<circ> rawResponse)
     (fst (askQuestion (exampleServices 0 [bailChunk] []) exampleQuestion noOptions 0)) =
     Inr (Some 48)"
  by (simp add: pipeline_defs example_defs string_defs value_defs)

lemma example_variant_tokens:
  "variantSearchTokens (exampleServices 0 [bailChunk] []) (generateSearchQueries exampleQuestion) 0 = 109"
  by (simp add: generateSearchQueries_def exampleServices_def exampleQuestion_def Let_def string_defs)

subsection \<open>Validation by length\<close>

text \<open>
  C6: a question whose trimmed length is below 5 or above 5000 makes \<open>askQuestion\<close>
  return a failure result (with the message of the length check), and the run causes no
  event at all: no embedding, no similarity search, no completion, nor any other call;
  the outside world is as it was.
\<close>

theorem askQuestion_rejects_by_length:
  assumes "length (trim question) < 5 \<or> length (trim question) > 5000"
  shows "askQuestion sv question opts w =
           (Inr (failure (Some (if length (trim question) < 5
                                then js ''Please ask a more detailed question.''
                                else js ''Your question is too long. Please keep it under 5000 characters.''))),
            w, [])"
  using assms by (auto simp: askQuestion_def validateQuestion_def Let_def)

theorem askQuestion_rejects_by_length_witness:
  "length (trim (js ''hi'')) < 5 \<and>
   askQuestion (exampleServices 0 [bailChunk] []) (js ''hi'') noOptions 0 =
     (Inr (failure (Some (js ''Please ask a more detailed question.''))), 0, []) \<and>
   length (trim (replicate 5001 97)) > 5000 \<and>
   askQuestion (exampleServices 0 [bailChunk] []) (replicate 5001 97) noOptions 0 =
     (Inr (failure (Some (js ''Your question is too long. Please keep it under 5000 characters.''))),
      0, [])"
proof -
  have h: "length (trim (js ''hi'')) < 5" by (simp add: js_def trim_def isWhiteSpace_def)
  have l: "length (trim (replicate 5001 97)) = 5001" by (simp add: trim_def isWhiteSpace_def)
  then have h': "length (trim (replicate 5001 97)) > 5000" by simp
  from askQuestion_rejects_by_length [OF disjI1 [OF h], of "exampleServices 0 [bailChunk] []" noOptions 0]
    askQuestion_rejects_by_length [OF disjI2 [OF h'], of "exampleServices 0 [bailChunk] []" noOptions 0]
    h l
  show ?thesis by simp
qed

subsection \<open>Scope filters\<close>

text \<open>
  C2: when a non-empty list of documents or of categories was selected, no run of
  \<open>askQuestion\<close> asks for the recent chunks (\<open>getFallbackChunks\<close> is the only place that
  does, and it is not reached); and when the question is valid and the chunk set after
  filtering and enrichment is empty, the result is the failure with the message for the
  selected documents, or else the one for the selected categories, with the events and the
  world of the retrieval unchanged.
\<close>

theorem scoped_empty_result_no_fallback:
  assumes scope: "nonEmptyList (selectedDocumentIds opts) \<or> nonEmptyList (selectedMasters opts)"
  shows "SelectRecentChunks \<notin> set (snd (snd (askQuestion sv question opts w))) \<and>
         (isValid (validateQuestion question) \<and>
          fst (retrieveChunks sv question opts w) = Inr (embeddingResult, []) \<longrightarrow>
          askQuestion sv question opts w =
            (Inr (failure (Some (if nonEmptyList (selectedDocumentIds opts)
                                 then selectedDocumentsMessage else selectedMastersMessage))),
             snd (retrieveChunks sv question opts w)))"
proof (cases "isValid (validateQuestion question)")
  case False
  then show ?thesis by (simp add: askQuestion_def Let_def)
next
  case True
  obtain res w1 evs1 where r: "retrieveChunks sv question opts w = (res, w1, evs1)"
    by (cases "retrieveChunks sv question opts w") auto
  note e1 = retrieveChunks_events [OF r]
  show ?thesis
  proof (cases res)
    case (Inl err)
    with True r e1 show ?thesis by (simp add: askQuestion_def Let_def)
  next
    case (Inr p)
    obtain er enhancedChunks where p: "p = (er, enhancedChunks)" by (cases p) auto
    show ?thesis
    proof (cases "enhancedChunks = []")
      case True
      with \<open>isValid (validateQuestion question)\<close> r Inr p e1 scope show ?thesis
        by (auto simp: askQuestion_def Let_def)
    next
      case False
      obtain g w2 evs2 where g: "generateResponseWithFallback sv question enhancedChunks
                          (tokenCount er) w1 = (g, w2, evs2)"
        by (cases "generateResponseWithFallback sv question enhancedChunks (tokenCount er) w1") auto
      note e2 = generate_observed [OF g]
      show ?thesis
      proof (cases g)
        case (Inl err)
        with \<open>isValid (validateQuestion question)\<close> r Inr p False g e1 e2 show ?thesis
          by (auto simp: askQuestion_def Let_def)
      next
        case (Inr response)
        obtain w3 evs3 where l: "logAIUsage sv (truthyStr (case truthyStr (lawyerId opts) of Some l \<Rightarrow> Some l | None \<Rightarrow> preceptorId opts)) question
                               (orElse (truthyStr (map_option md_model (metadata response))) (js ''unknown''))
                               (tokenCount er +
                                orElse (truthyNat (Option.bind (metadata response) md_totalTokens)) 0)
                               (answer response)
                               (Some (setOrder (map c_document_title enhancedChunks)))
                               None w2 = (w3, evs3)"
          by (cases "logAIUsage sv (truthyStr (case truthyStr (lawyerId opts) of Some l \<Rightarrow> Some l | None \<Rightarrow> preceptorId opts)) question
                               (orElse (truthyStr (map_option md_model (metadata response))) (js ''unknown''))
                               (tokenCount er +
                                orElse (truthyNat (Option.bind (metadata response) md_totalTokens)) 0)
                               (answer response)
                               (Some (setOrder (map c_document_title enhancedChunks)))
                               None w2") auto
        from logAIUsage_events [OF l] obtain entry where "evs3 = [InsertUsageLog entry]" by blast
        with \<open>isValid (validateQuestion question)\<close> r \<open>res = Inr p\<close> p False g Inr l e1 e2 show ?thesis
          by (auto simp: askQuestion_def Let_def)
      qed
    qed
  qed
qed

theorem scoped_empty_result_no_fallback_witness:
  "nonEmptyList (selectedDocumentIds scopedOptions) \<and>
   isValid (validateQuestion exampleQuestion) \<and>
   fst (retrieveChunks (exampleServices 0 [bailChunk] []) exampleQuestion scopedOptions 0) =
     Inr (\<lparr>embedding = [], tokenCount = 13\<rparr>, []) \<and>
   fst (askQuestion (exampleServices 0 [bailChunk] []) exampleQuestion scopedOptions 0) =
     Inr (failure (Some selectedDocumentsMessage)) \<and>
   SelectRecentChunks \<notin>
     set (snd (snd (askQuestion (exampleServices 0 [bailChunk] []) exampleQuestion scopedOptions 0)))"
proof -
  have h1: "nonEmptyList (selectedDocumentIds scopedOptions)"
    by (simp add: scopedOptions_def noOptions_def nonEmptyList_def)
  note t = scoped_empty_result_no_fallback [OF disjI1 [OF h1], of "exampleServices 0 [bailChunk] []" exampleQuestion 0
                "\<lparr>embedding = [], tokenCount = 13\<rparr>"]
  from t have a: "SelectRecentChunks \<notin>
     set (snd (snd (askQuestion (exampleServices 0 [bailChunk] []) exampleQuestion scopedOptions 0)))"
    by (rule conjunct1)
  from t example_valid example_retrieve_scoped
  have "askQuestion (exampleServices 0 [bailChunk] []) exampleQuestion scopedOptions 0 =
          (Inr (failure (Some (if nonEmptyList (selectedDocumentIds scopedOptions)
                               then selectedDocumentsMessage else selectedMastersMessage))),
           snd (retrieveChunks (exampleServices 0 [bailChunk] []) exampleQuestion scopedOptions 0))"
    by blast
  with h1 have c: "fst (askQuestion (exampleServices 0 [bailChunk] []) exampleQuestion scopedOptions 0) =
     Inr (failure (Some selectedDocumentsMessage))" by simp
  from h1 example_valid example_retrieve_scoped c a show ?thesis by (intro conjI)
qed

text \<open>
  C10: with a non-empty list of categories, a lookup that returns no data leaves the
  chunks as they are; with no chunks left before the category filter, there is no lookup
  and no filtering; and whenever the category filter changes the chunk list, the lookup
  was made for a non-empty list of categories and returned rows, by whose document ids
  the chunks were filtered.
\<close>

theorem category_filter_skipped:
  "(masters \<noteq> [] \<and> uniqueChunks \<noteq> [] \<and> select_documents_by_masters sv masters w = (None, w1) \<longrightarrow>
      filterBySelectedMasters sv (Some masters) uniqueChunks w =
        (uniqueChunks, w1, [SelectDocumentsByMasters masters])) \<and>
   filterBySelectedMasters sv selected [] w = ([], w, []) \<and>
   (fst (filterBySelectedMasters sv selected uniqueChunks w) \<noteq> uniqueChunks \<longrightarrow>
      (\<exists>names allowedDocIds w2. selected = Some names \<and> names \<noteq> [] \<and>
         select_documents_by_masters sv names w = (Some allowedDocIds, w2) \<and>
         fst (filterBySelectedMasters sv selected uniqueChunks w) =
           filter (\<lambda>chunk. c_document_id chunk \<in> set allowedDocIds) uniqueChunks))"
  by (auto simp: filterBySelectedMasters_def split: option.splits prod.splits if_splits)

theorem category_filter_skipped_witness:
  "select_documents_by_masters (exampleServices 0 [] []) [js ''Criminal Law''] 0 = (None, 0) \<and>
   filterBySelectedMasters (exampleServices 0 [] []) (Some [js ''Criminal Law'']) [bailChunk] 0 =
     ([bailChunk], 0, [SelectDocumentsByMasters [js ''Criminal Law'']]) \<and>
   fst (filterBySelectedMasters categoryServices (Some [js ''Criminal Law'']) [bailChunk] 0) \<noteq> [bailChunk] \<and>
   select_documents_by_masters categoryServices [js ''Criminal Law''] 0 = (Some [js ''doc-9''], 0) \<and>
   fst (filterBySelectedMasters categoryServices (Some [js ''Criminal Law'']) [bailChunk] 0) = []"
proof -
  have h1: "select_documents_by_masters (exampleServices 0 [] []) [js ''Criminal Law''] 0 = (None, 0)"
    by (simp add: exampleServices_def)
  have h2: "fst (filterBySelectedMasters categoryServices (Some [js ''Criminal Law'']) [bailChunk] 0) \<noteq> [bailChunk]"
    by (simp add: filterBySelectedMasters_def categoryServices_def exampleServices_def
        bailChunk_def exampleChunk_def js_def)
  have h3: "select_documents_by_masters categoryServices [js ''Criminal Law''] 0 = (Some [js ''doc-9''], 0)"
    by (simp add: categoryServices_def exampleServices_def)
  note a = category_filter_skipped [of "[js ''Criminal Law'']" "[bailChunk]" "exampleServices 0 [] []" 0 0]
  note b = category_filter_skipped [of "[js ''Criminal Law'']" "[bailChunk]" categoryServices 0 0 "Some [js ''Criminal Law'']"]
  from a h1 have c1: "filterBySelectedMasters (exampleServices 0 [] []) (Some [js ''Criminal Law'']) [bailChunk] 0 =
     ([bailChunk], 0, [SelectDocumentsByMasters [js ''Criminal Law'']])" by simp
  from b h2 h3 have c2: "fst (filterBySelectedMasters categoryServices (Some [js ''Criminal Law'']) [bailChunk] 0) =
     filter (\<lambda>chunk. c_document_id chunk \<in> set [js ''doc-9'']) [bailChunk]" by auto
  then have c3: "fst (filterBySelectedMasters categoryServices (Some [js ''Criminal Law'']) [bailChunk] 0) = []"
    by (simp add: bailChunk_def exampleChunk_def js_def)
  from h1 h2 h3 c1 c3 show ?thesis by simp
qed

subsection \<open>The chain of models\<close>

lemma attemptModel_success:
  assumes "attemptModel sv chunks tok pr model w = (Inr r, w', evs)"
  shows "success r \<and> map_option md_model (metadata r) = Some model \<and> debug r = Some pr"
  using assms
  by (auto simp: attemptModel_def Let_def split: prod.splits completion_reply.splits)

lemma tryModels_prefix:
  assumes "attemptsFail sv chunks tok pr pre w = Some wk"
    and "attemptModel sv chunks tok pr model wk = (Inr r, w', evs')"
  shows "\<exists>evs. tryModels sv chunks tok pr (pre @ model # post) lastError w = (Inr r, w', evs) \<and>
               failedModels evs = pre \<and> requestedModels evs = pre @ [model]"
  using assms
proof (induction pre arbitrary: w lastError)
  case Nil
  with attemptModel_observed [OF Nil.prems(2)] show ?case by simp
next
  case (Cons m pre)
  obtain a w1 evs1 where a: "attemptModel sv chunks tok pr m w = (a, w1, evs1)"
    by (cases "attemptModel sv chunks tok pr m w") auto
  note o = attemptModel_observed [OF a]
  show ?case
  proof (cases a)
    case (Inr response)
    with a Cons.prems(1) show ?thesis by simp
  next
    case (Inl err)
    with a Cons.prems(1) have f: "attemptsFail sv chunks tok pr pre w1 = Some wk" by simp
    from Cons.IH [OF f Cons.prems(2), of "Some err"] obtain evs2 where
      t: "tryModels sv chunks tok pr (pre @ model # post) (Some err) w1 = (Inr r, w', evs2)"
      and f2: "failedModels evs2 = pre" and r2: "requestedModels evs2 = pre @ [model]"
      by blast
    from a Inl t have "tryModels sv chunks tok pr ((m # pre) @ model # post) lastError w =
                         (Inr r, w', evs1 @ ModelFailed m err # evs2)" by simp
    with o f2 r2 show ?thesis by (simp add: failedModels_append requestedModels_append)
  qed
qed

text \<open>
  C4: in a run of the chain over \<open>modelPriority\<close> in which the first \<open>k\<close> models fail
  and the next one succeeds with the response \<open>r\<close>, \<open>generateResponseWithFallback\<close>
  returns \<open>r\<close>, a success whose \<open>metadata.model\<close> is that model; exactly \<open>k\<close> failures
  are recorded, those of the first \<open>k\<close> models in order; and the models asked are the
  first \<open>k + 1\<close>, so the chain stops at the first success.
\<close>

theorem fallback_chain_stops_at_first_success:
  assumes "k < length modelPriority"
    and "attemptsFail sv chunks tok (buildPrompt question chunks) (take k modelPriority) w = Some wk"
    and "attemptModel sv chunks tok (buildPrompt question chunks) (modelPriority ! k) wk = (Inr r, w', evs')"
  shows "\<exists>evs. generateResponseWithFallback sv question chunks tok w = (Inr r, w', evs) \<and>
               success r \<and>
               map_option md_model (metadata r) = Some (modelPriority ! k) \<and>
               failedModels evs = take k modelPriority \<and>
               length (failedModels evs) = k \<and>
               requestedModels evs = take (Suc k) modelPriority"
proof -
  have split: "modelPriority = take k modelPriority @ modelPriority ! k # drop (Suc k) modelPriority"
    using assms(1) by (simp add: id_take_nth_drop)
  from tryModels_prefix [OF assms(2) assms(3), of "drop (Suc k) modelPriority" None]
  obtain evs where t: "tryModels sv chunks tok (buildPrompt question chunks)
                         (take k modelPriority @ modelPriority ! k # drop (Suc k) modelPriority) None w =
                       (Inr r, w', evs)"
    and f: "failedModels evs = take k modelPriority"
    and rq: "requestedModels evs = take k modelPriority @ [modelPriority ! k]"
    by blast
  from t split have g: "generateResponseWithFallback sv question chunks tok w = (Inr r, w', evs)"
    by (simp add: generateResponseWithFallback_def)
  from assms(1) f have l: "length (failedModels evs) = k" by simp
  from assms(1) rq have rq': "requestedModels evs = take (Suc k) modelPriority"
    by (simp add: take_Suc_conv_app_nth)
  from attemptModel_success [OF assms(3)]
  have s: "success r" and m: "map_option md_model (metadata r) = Some (modelPriority ! k)"
    by simp_all
  from g s m f l rq' show ?thesis by (intro exI [of _ evs] conjI)
qed

theorem fallback_chain_stops_at_first_success_witness:
  "2 < length modelPriority \<and>
   attemptsFail (exampleServices 2 [] []) [bailChunk] 13 (buildPrompt exampleQuestion [bailChunk])
     (take 2 modelPriority) 0 = Some 2 \<and>
   failedModels (snd (snd (generateResponseWithFallback (exampleServices 2 [] []) exampleQuestion
                             [bailChunk] 13 0))) =
     [js ''x-ai/grok-4.1-fast'', js ''x-ai/grok-4-fast''] \<and>
   requestedModels (snd (snd (generateResponseWithFallback (exampleServices 2 [] []) exampleQuestion
                                [bailChunk] 13 0))) =
     [js ''x-ai/grok-4.1-fast'', js ''x-ai/grok-4-fast'', js ''x-ai/grok-4''] \<and>
   map_sum id (\<lambda>r. map_option md_model (metadata r))
     (fst (generateResponseWithFallback (exampleServices 2 [] []) exampleQuestion [bailChunk] 13 0)) =
     Inr (Some (js ''x-ai/grok-4''))"
proof -
  have h1: "2 < length modelPriority" by (simp add: modelPriority_def)
  have h2: "attemptsFail (exampleServices 2 [] []) [bailChunk] 13 (buildPrompt exampleQuestion [bailChunk])
              (take 2 modelPriority) 0 = Some 2"
    by (simp add: modelPriority_def example_attempt_fails)
  have "\<exists>r w' evs. attemptModel (exampleServices 2 [] []) [bailChunk] 13
            (buildPrompt exampleQuestion [bailChunk]) (modelPriority ! 2) 2 = (Inr r, w', evs)"
    by (simp add: attemptModel_def exampleServices_def Let_def split_beta)
  then obtain r w' evs' where h3: "attemptModel (exampleServices 2 [] []) [bailChunk] 13
            (buildPrompt exampleQuestion [bailChunk]) (modelPriority ! 2) 2 = (Inr r, w', evs')"
    by blast
  from fallback_chain_stops_at_first_success [OF h1 h2 h3] obtain evs where
    g: "generateResponseWithFallback (exampleServices 2 [] []) exampleQuestion [bailChunk] 13 0 =
          (Inr r, w', evs)"
    and m: "map_option md_model (metadata r) = Some (modelPriority ! 2)"
    and f: "failedModels evs = take 2 modelPriority"
    and q: "requestedModels evs = take (Suc 2) modelPriority"
    by blast
  from h1 h2 g m f q show ?thesis by (simp add: modelPriority_def)
qed

subsection \<open>Citations\<close>

lemma buildCitations_content:
  "buildCitations sv chunks i w = (cits, w', evs) \<Longrightarrow>
     map chunk_id cits = map c_id chunks \<and>
     map full_content cits = map c_content chunks \<and>
     map quote cits =
       map (\<lambda>chunk. take 200 (c_content chunk) @
                      (if length (c_content chunk) > 200 then js ''...'' else [])) chunks"
proof (induction chunks arbitrary: i w cits w' evs)
  case Nil
  then show ?case by simp
next
  case (Cons chunk rest)
  obtain c w1 evs1 where b: "buildCitation sv chunk i w = (c, w1, evs1)"
    by (cases "buildCitation sv chunk i w") auto
  obtain cs2 w2 evs2 where r: "buildCitations sv rest (Suc i) w1 = (cs2, w2, evs2)"
    by (cases "buildCitations sv rest (Suc i) w1") auto
  from Cons.prems b r have c: "cits = c # cs2" by simp
  from b have "chunk_id c = c_id chunk \<and> full_content c = c_content chunk \<and>
     quote c = take 200 (c_content chunk) @ (if length (c_content chunk) > 200 then js ''...'' else [])"
    by (auto simp: buildCitation_def split: prod.splits)
  with c Cons.IH [OF r] show ?case by simp
qed

lemma sourceEntries_content:
  "map s_number (sourceEntries i chunks) = map Suc [i ..< i + length chunks] \<and>
   map s_content (sourceEntries i chunks) = map c_content chunks"
proof (induction chunks arbitrary: i)
  case Nil
  then show ?case by simp
next
  case (Cons chunk rest)
  have "[i ..< i + length (chunk # rest)] = i # [Suc i ..< Suc i + length rest]"
    using upt_conv_Cons [of i "i + Suc (length rest)"] by simp
  with Cons [of "Suc i"] show ?case by simp
qed

lemma tryModels_success:
  "tryModels sv chunks tok pr models lastError w = (Inr r, w', evs) \<Longrightarrow>
     \<exists>model w0 evs0. model \<in> set models \<and> attemptModel sv chunks tok pr model w0 = (Inr r, w', evs0)"
proof (induction models arbitrary: lastError w evs)
  case Nil
  then show ?case by simp
next
  case (Cons m rest)
  obtain a w1 evs1 where a: "attemptModel sv chunks tok pr m w = (a, w1, evs1)"
    by (cases "attemptModel sv chunks tok pr m w") auto
  show ?case
  proof (cases a)
    case (Inr response)
    with a Cons.prems show ?thesis by auto
  next
    case (Inl err)
    obtain r2 w2 evs2 where t: "tryModels sv chunks tok pr rest (Some err) w1 = (r2, w2, evs2)"
      by (cases "tryModels sv chunks tok pr rest (Some err) w1") auto
    with a Inl Cons.prems have "tryModels sv chunks tok pr rest (Some err) w1 = (Inr r, w', evs2)"
      by simp
    from Cons.IH [OF this] show ?thesis by auto
  qed
qed

lemma attemptModel_citations:
  assumes "attemptModel sv chunks tok pr model w = (Inr r, w', evs)"
  shows "\<exists>cits. citations r = Some cits \<and> debug r = Some pr \<and>
           map chunk_id cits = map c_id chunks \<and>
           map full_content cits = map c_content chunks \<and>
           map quote cits = map (\<lambda>c. take 200 (full_content c) @
                                  (if length (full_content c) > 200 then js ''...'' else [])) cits"
proof (cases "chat_completions sv model pr w")
  case (Pair reply w1)
  show ?thesis
  proof (cases reply)
    case (Thrown err)
    with Pair assms show ?thesis by (simp add: attemptModel_def)
  next
    case (NotOk st body)
    with Pair assms show ?thesis by (simp add: attemptModel_def)
  next
    case (Completed raw usage)
    obtain cits w2 evs2 where b: "buildCitations sv chunks 0 w1 = (cits, w2, evs2)"
      by (cases "buildCitations sv chunks 0 w1") auto
    with Pair Completed assms have c: "citations r = Some cits" and d: "debug r = Some pr"
      by (auto simp: attemptModel_def Let_def)
    note bc = buildCitations_content [OF b]
    have q: "map quote cits = map (\<lambda>c. take 200 (full_content c) @
                                  (if length (full_content c) > 200 then js ''...'' else [])) cits"
    proof -
      have "map (\<lambda>c. take 200 (full_content c) @
                  (if length (full_content c) > 200 then js ''...'' else [])) cits =
            map (\<lambda>s. take 200 s @ (if length s > 200 then js ''...'' else [])) (map full_content cits)"
        by (simp add: comp_def)
      also have "\<dots> = map (\<lambda>s. take 200 s @ (if length s > 200 then js ''...'' else [])) (map c_content chunks)"
        using bc by simp
      also have "\<dots> = map quote cits" using bc by (simp add: comp_def)
      finally show ?thesis by (rule sym)
    qed
    from bc have b1: "map chunk_id cits = map c_id chunks"
      and b2: "map full_content cits = map c_content chunks" by simp_all
    from c d b1 b2 q show ?thesis by (intro exI [of _ cits] conjI)
  qed
qed

text \<open>
  C9: a successful generation carries one citation per chunk, in the order of the
  chunks, which is the order of the numbered sources \<open>[Source 1]\<close>, \<open>[Source 2]\<close>, ... of
  the prompt: citation and source at the same position have the id and the content of the
  same chunk. \<open>full_content\<close> is the whole content, and \<open>quote\<close> is its first 200 code
  units, followed by \<open>...\<close> exactly when the content is longer than 200.
\<close>

theorem citations_follow_prompt_order:
  assumes "generateResponseWithFallback sv question chunks tok w = (Inr r, w', evs)"
  shows "\<exists>cits pr. citations r = Some cits \<and> debug r = Some pr \<and>
           length cits = length chunks \<and> length (pr_sources pr) = length chunks \<and>
           map s_number (pr_sources pr) = [1 ..< Suc (length chunks)] \<and>
           map s_content (pr_sources pr) = map c_content chunks \<and>
           map chunk_id cits = map c_id chunks \<and>
           map full_content cits = map c_content chunks \<and>
           map quote cits = map (\<lambda>c. take 200 (full_content c) @
                                  (if length (full_content c) > 200 then js ''...'' else [])) cits"
proof -
  from assms have t: "tryModels sv chunks tok (buildPrompt question chunks) modelPriority None w =
                        (Inr r, w', evs)"
    by (simp add: generateResponseWithFallback_def)
  from tryModels_success [OF t] obtain model w0 evs0 where
    a: "attemptModel sv chunks tok (buildPrompt question chunks) model w0 = (Inr r, w', evs0)"
    by blast
  from attemptModel_citations [OF a] obtain cits where
    c: "citations r = Some cits" "debug r = Some (buildPrompt question chunks)"
       "map chunk_id cits = map c_id chunks" "map full_content cits = map c_content chunks"
       "map quote cits = map (\<lambda>c. take 200 (full_content c) @
                                  (if length (full_content c) > 200 then js ''...'' else [])) cits"
    by blast
  from c(3) have l: "length cits = length chunks" by (rule map_eq_imp_length_eq)
  have s: "map s_number (pr_sources (buildPrompt question chunks)) = [1 ..< Suc (length chunks)]"
    using sourceEntries_content [of 0 chunks] by (simp add: buildPrompt_def map_Suc_upt)
  have s2: "map s_content (pr_sources (buildPrompt question chunks)) = map c_content chunks"
    using sourceEntries_content [of 0 chunks] by (simp add: buildPrompt_def)
  from s2 have l2: "length (pr_sources (buildPrompt question chunks)) = length chunks"
    by (rule map_eq_imp_length_eq)
  from c l s s2 l2 show ?thesis
    by (intro exI [of _ cits] exI [of _ "buildPrompt question chunks"] conjI)
qed

theorem citations_follow_prompt_order_witness:
  "\<exists>r w' evs.
     generateResponseWithFallback (exampleServices 0 [] []) exampleQuestion [longChunk, bailChunk] 13 0 =
       (Inr r, w', evs) \<and>
     map quote (the (citations r)) = [replicate 200 97 @ js ''...'', js ''Bail is the rule.''] \<and>
     map chunk_id (the (citations r)) = [js ''b'', js ''a''] \<and>
     map s_number (pr_sources (the (debug r))) = [1, 2]"
proof -
  have "\<exists>r w' evs. generateResponseWithFallback (exampleServices 0 [] []) exampleQuestion
                      [longChunk, bailChunk] 13 0 = (Inr r, w', evs)"
    by (simp add: generateResponseWithFallback_def modelPriority_def attemptModel_def
        exampleServices_def Let_def split_beta)
  then obtain r w' evs where
    g: "generateResponseWithFallback (exampleServices 0 [] []) exampleQuestion
          [longChunk, bailChunk] 13 0 = (Inr r, w', evs)" by blast
  from citations_follow_prompt_order [OF g] obtain cits pr where
    c: "citations r = Some cits" "debug r = Some pr"
       "map s_number (pr_sources pr) = [1 ..< Suc (length [longChunk, bailChunk])]"
       "map chunk_id cits = map c_id [longChunk, bailChunk]"
       "map full_content cits = map c_content [longChunk, bailChunk]"
       "map quote cits = map (\<lambda>c. take 200 (full_content c) @
                                  (if length (full_content c) > 200 then js ''...'' else [])) cits"
    by blast
  have "map (\<lambda>c. take 200 (full_content c) @
              (if length (full_content c) > 200 then js ''...'' else [])) cits =
        map (\<lambda>s. take 200 s @ (if length s > 200 then js ''...'' else [])) (map full_content cits)"
    by (simp add: comp_def)
  with c(5) c(6) have q: "map quote cits = [replicate 200 97 @ js ''...'', js ''Bail is the rule.'']"
    by (simp add: longChunk_def bailChunk_def exampleChunk_def js_def)
  from c(4) have i: "map chunk_id cits = [js ''b'', js ''a'']"
    by (simp add: longChunk_def bailChunk_def exampleChunk_def)
  from c(3) have n: "map s_number (pr_sources pr) = [1, 2]" by (simp add: upt_rec)
  from g c(1) c(2) q i n show ?thesis by simp
qed

subsection \<open>When every model fails\<close>

text \<open>
  C5 (as the code behaves): with no scope selected, searches that find nothing, a
  non-empty set of fallback chunks and all eight models failing, the promise of
  \<open>askQuestion\<close> is rejected with the error of the chain: the generation over the
  fallback chunks is returned from inside the \<open>try\<close> without \<open>await\<close>, so the \<open>catch\<close>
  does not see its rejection. With the same failures over retrieved chunks the generation
  is awaited, and the result is the failure object whose message holds the last error.
\<close>

theorem askQuestion_rejects_on_fallback_chunks:
  "fst (askQuestion (exampleServices 8 [] [bailChunk]) exampleQuestion noOptions 0) =
     Inl (js ''All models failed. Last error: API error: 503 - busy'') \<and>
   fst (askQuestion (exampleServices 8 [bailChunk] []) exampleQuestion noOptions 0) =
     Inr (caught (js ''All models failed. Last error: API error: 503 - busy''))"
proof -
  have r1: "retrieveChunks (exampleServices 8 [] [bailChunk]) exampleQuestion noOptions 0 =
              (Inr (\<lparr>embedding = [], tokenCount = 13\<rparr>, []), 
               snd (retrieveChunks (exampleServices 8 [] [bailChunk]) exampleQuestion noOptions 0))"
    by (simp add: retrieveChunks_def generateSearchQueries_def deduplicateChunks_def
      similarityOrZero_def filterBySelectedDocuments_def filterBySelectedMasters_def
      enhanceChunksWithDocumentContext_def Let_def example_defs string_defs value_defs)
  have r1w: "fst (snd (retrieveChunks (exampleServices 8 [] [bailChunk]) exampleQuestion noOptions 0)) = 0"
    by (simp add: retrieveChunks_def generateSearchQueries_def deduplicateChunks_def
      similarityOrZero_def filterBySelectedDocuments_def filterBySelectedMasters_def
      enhanceChunksWithDocumentContext_def Let_def example_defs string_defs value_defs)
  have f: "fst (getFallbackChunks (exampleServices 8 [] [bailChunk]) 0) \<noteq> [] \<and>
           fst (snd (getFallbackChunks (exampleServices 8 [] [bailChunk]) 0)) = 0"
    by (simp add: getFallbackChunks_def exampleServices_def orElse_def)
  have a: "fst (askQuestion (exampleServices 8 [] [bailChunk]) exampleQuestion noOptions 0) =
     Inl (js ''All models failed. Last error: API error: 503 - busy'')"
    using example_valid f r1w
    by (subst askQuestion_def, subst r1)
       (simp add: Let_def split_beta nonEmptyList_def noOptions_def example_generate_all_fail)
  have r2: "retrieveChunks (exampleServices 8 [bailChunk] []) exampleQuestion noOptions 0 =
              (Inr (\<lparr>embedding = [], tokenCount = 13\<rparr>, [bailChunk]), 
               snd (retrieveChunks (exampleServices 8 [bailChunk] []) exampleQuestion noOptions 0))"
    by (simp add: retrieveChunks_def generateSearchQueries_def deduplicateChunks_def
      similarityOrZero_def filterBySelectedDocuments_def filterBySelectedMasters_def
      enhanceChunksWithDocumentContext_def Let_def example_defs string_defs value_defs)
  have r2w: "fst (snd (retrieveChunks (exampleServices 8 [bailChunk] []) exampleQuestion noOptions 0)) = 0"
    by (simp add: retrieveChunks_def generateSearchQueries_def deduplicateChunks_def
      similarityOrZero_def filterBySelectedDocuments_def filterBySelectedMasters_def
      enhanceChunksWithDocumentContext_def Let_def example_defs string_defs value_defs)
  have b: "fst (askQuestion (exampleServices 8 [bailChunk] []) exampleQuestion noOptions 0) =
     Inr (caught (js ''All models failed. Last error: API error: 503 - busy''))"
    using example_valid r2w example_generate_all_fail [of "[bailChunk]" "[]" exampleQuestion "[bailChunk]" 13]
    by (subst askQuestion_def, subst r2)
       (simp add: Let_def split_beta split: sum.splits)
  from a b show ?thesis by simp
qed

subsection \<open>The usage record\<close>

text \<open>\<open>Math.ceil(n / 4)\<close> for a length \<open>n\<close>.\<close>

lemma ceil4: "nat \<lceil>real n / 4\<rceil> = (n + 3) div 4"
proof -
  have a: "4 * ((n + 3) div 4) \<le> n + 3" by simp
  have b: "n < 4 * ((n + 3) div 4) + 1" by presburger
  have "\<lceil>real n / 4\<rceil> = int ((n + 3) div 4)"
  proof (rule ceiling_unique)
    from a have "real (4 * ((n + 3) div 4)) \<le> real (n + 3)" by (simp only: of_nat_le_iff)
    then show "of_int (int ((n + 3) div 4)) - 1 < real n / 4" by simp
    from b have "real n < real (4 * ((n + 3) div 4) + 1)" by (simp only: of_nat_less_iff)
    then show "real n / 4 \<le> of_int (int ((n + 3) div 4))" using b by (simp add: field_simps)
  qed
  then show ?thesis by simp
qed

lemma retrieveChunks_embedding:
  assumes "retrieveChunks sv question opts w = (Inr (er, chunks), w', evs)"
  shows "\<exists>w1. generateEmbedding sv question w = (Inr er, w1)"
  using assms
  by (auto simp: retrieveChunks_def split: prod.splits sum.splits)

text \<open>
  A successful attempt: the reply of the completion service behind it, and what the
  response takes from that reply.
\<close>

lemma attemptModel_tokens:
  assumes "attemptModel sv chunks tok pr model w = (Inr r, w', evs)"
  shows "\<exists>tu raw usage w1. success r \<and>
           chat_completions sv model pr w = (Completed raw usage, w1) \<and>
           rawResponse r = Some raw \<and>
           answer r = Some (p_answer (parseModelResponse raw)) \<and>
           tokenUsage r = Some tu \<and>
           tu_embeddingTokens tu = tok \<and>
           tu_totalTokens tu =
             orElse (truthyNat (Option.bind usage usage_total_tokens))
               (orElse (truthyNat (Option.bind usage usage_prompt_tokens)) 0 +
                orElse (truthyNat (Option.bind usage usage_completion_tokens)) 0) \<and>
           Option.bind (metadata r) md_totalTokens = Some (tu_totalTokens tu)"
  using assms
  by (auto simp: attemptModel_def Let_def split: prod.splits completion_reply.splits)

lemma tryModels_success_request:
  "tryModels sv chunks tok pr models lastError w = (Inr r, w', evs) \<Longrightarrow>
     \<exists>model w0 evs0. model \<in> set models \<and> set evs0 \<subseteq> set evs \<and>
        attemptModel sv chunks tok pr model w0 = (Inr r, w', evs0)"
proof (induction models arbitrary: lastError w evs)
  case Nil
  then show ?case by simp
next
  case (Cons m rest)
  obtain a w1 evs1 where a: "attemptModel sv chunks tok pr m w = (a, w1, evs1)"
    by (cases "attemptModel sv chunks tok pr m w") auto
  show ?case
  proof (cases a)
    case (Inr response)
    with a Cons.prems have "attemptModel sv chunks tok pr m w = (Inr r, w', evs)" by simp
    then show ?thesis by (intro exI [of _ m] exI [of _ w] exI [of _ evs]) simp
  next
    case (Inl err)
    obtain r2 w2 evs2 where t: "tryModels sv chunks tok pr rest (Some err) w1 = (r2, w2, evs2)"
      by (cases "tryModels sv chunks tok pr rest (Some err) w1") auto
    with a Inl Cons.prems have t': "tryModels sv chunks tok pr rest (Some err) w1 = (Inr r, w', evs2)"
      and e: "evs = evs1 @ ModelFailed m err # evs2"
      by simp_all
    from Cons.IH [OF t'] obtain model w0 evs0 where
      "model \<in> set rest" "set evs0 \<subseteq> set evs2"
      "attemptModel sv chunks tok pr model w0 = (Inr r, w', evs0)" by blast
    with e show ?thesis by (intro exI [of _ model] exI [of _ w0] exI [of _ evs0]) auto
  qed
qed

lemma generate_tokens:
  assumes "generateResponseWithFallback sv question chunks tok w = (Inr r, w', evs)"
  shows "\<exists>tu model pr w0 raw usage w1. success r \<and>
           ChatCompletion model pr \<in> set evs \<and>
           chat_completions sv model pr w0 = (Completed raw usage, w1) \<and>
           rawResponse r = Some raw \<and>
           answer r = Some (p_answer (parseModelResponse raw)) \<and>
           tokenUsage r = Some tu \<and>
           tu_embeddingTokens tu = tok \<and>
           tu_totalTokens tu =
             orElse (truthyNat (Option.bind usage usage_total_tokens))
               (orElse (truthyNat (Option.bind usage usage_prompt_tokens)) 0 +
                orElse (truthyNat (Option.bind usage usage_completion_tokens)) 0) \<and>
           Option.bind (metadata r) md_totalTokens = Some (tu_totalTokens tu)"
proof -
  from assms have t: "tryModels sv chunks tok (buildPrompt question chunks) modelPriority None w =
                        (Inr r, w', evs)"
    by (simp add: generateResponseWithFallback_def)
  from tryModels_success_request [OF t] obtain model w0 evs0 where
    s: "set evs0 \<subseteq> set evs"
    and a: "attemptModel sv chunks tok (buildPrompt question chunks) model w0 = (Inr r, w', evs0)"
    by blast
  from attemptModel_events [OF a] s
  have c: "ChatCompletion model (buildPrompt question chunks) \<in> set evs" by auto
  from attemptModel_tokens [OF a] obtain tu raw usage w1 where
    f: "success r"
       "chat_completions sv model (buildPrompt question chunks) w0 = (Completed raw usage, w1)"
       "rawResponse r = Some raw"
       "answer r = Some (p_answer (parseModelResponse raw))"
       "tokenUsage r = Some tu"
       "tu_embeddingTokens tu = tok"
       "tu_totalTokens tu =
          orElse (truthyNat (Option.bind usage usage_total_tokens))
               (orElse (truthyNat (Option.bind usage usage_prompt_tokens)) 0 +
                orElse (truthyNat (Option.bind usage usage_completion_tokens)) 0)"
       "Option.bind (metadata r) md_totalTokens = Some (tu_totalTokens tu)"
    by blast
  from c f show ?thesis
    by (intro exI [of _ tu] exI [of _ model] exI [of _ "buildPrompt question chunks"]
          exI [of _ w0] exI [of _ raw] exI [of _ usage] exI [of _ w1] conjI)
qed

lemma logAIUsage_entry:
  assumes "logAIUsage sv lawyer query model tokens (Some a) documents None w = (w', evs)"
  shows "\<exists>entry. evs = [InsertUsageLog entry] \<and>
           log_prompt_tokens entry = tokens \<and>
           log_completion_tokens entry = nat \<lceil>real (length a) / 4\<rceil> \<and>
           log_total_tokens entry = tokens + nat \<lceil>real (length a) / 4\<rceil> \<and>
           log_estimated_cost entry = estimateCost model (log_total_tokens entry)"
  using assms
  by (auto simp: logAIUsage_def Let_def truthyStr_def orElseNum_def ceil4 split: prod.splits)
text \<open>
  Every usage record that a run hands to the log: the query succeeded, the record is the
  only one, and its token counts are as follows.
\<close>

lemma logged_record_tokens:
  assumes run: "askQuestion sv question opts w = (res, w', evs)"
    and logged: "InsertUsageLog entry \<in> set evs"
  shows "\<exists>r tu a er w1 model pr w0 raw usage w2. res = Inr r \<and> success r \<and>
           generateEmbedding sv question w = (Inr er, w1) \<and>
           ChatCompletion model pr \<in> set evs \<and>
           chat_completions sv model pr w0 = (Completed raw usage, w2) \<and>
           rawResponse r = Some raw \<and>
           a = p_answer (parseModelResponse raw) \<and>
           tu_totalTokens tu =
             orElse (truthyNat (Option.bind usage usage_total_tokens))
               (orElse (truthyNat (Option.bind usage usage_prompt_tokens)) 0 +
                orElse (truthyNat (Option.bind usage usage_completion_tokens)) 0) \<and>
           tokenUsage r = Some tu \<and> answer r = Some a \<and>
           loggedEntries evs = [entry] \<and>
           log_prompt_tokens entry = tokenCount er + tu_totalTokens tu \<and>
           log_completion_tokens entry = nat \<lceil>real (length a) / 4\<rceil> \<and>
           log_total_tokens entry = log_prompt_tokens entry + log_completion_tokens entry"
proof -
  from logged have mem: "entry \<in> set (loggedEntries evs)" by (simp add: loggedEntries_set)
  have valid: "isValid (validateQuestion question)"
  proof (rule ccontr)
    assume "\<not> isValid (validateQuestion question)"
    with run have "evs = []" by (auto simp: askQuestion_def Let_def)
    with mem show False by simp
  qed
  obtain rc w1 evs1 where rc: "retrieveChunks sv question opts w = (rc, w1, evs1)"
    by (cases "retrieveChunks sv question opts w") auto
  note e1 = retrieveChunks_events [OF rc]
  show ?thesis
  proof (cases rc)
    case (Inl err)
    with valid rc run have "evs = evs1" by (auto simp: askQuestion_def Let_def)
    with e1 mem show ?thesis by simp
  next
    case (Inr p)
    obtain er enhancedChunks where p: "p = (er, enhancedChunks)" by (cases p) auto
    from rc Inr p have "retrieveChunks sv question opts w = (Inr (er, enhancedChunks), w1, evs1)"
      by simp
    from retrieveChunks_embedding [OF this] obtain w0 where
      emb: "generateEmbedding sv question w = (Inr er, w0)" by blast
    show ?thesis
    proof (cases "enhancedChunks = []")
      case True
      obtain fb w2 evs2 where fb: "getFallbackChunks sv w1 = (fb, w2, evs2)"
        by (cases "getFallbackChunks sv w1") auto
      obtain g w3 evs3 where g: "generateResponseWithFallback sv question fb (tokenCount er) w2 = (g, w3, evs3)"
        by (cases "generateResponseWithFallback sv question fb (tokenCount er) w2") auto
      from valid rc Inr p True fb g run
      have "evs = evs1 \<or> evs = evs1 @ evs2 \<or> evs = evs1 @ evs2 @ evs3"
        by (auto simp: askQuestion_def Let_def split: if_splits)
      with e1 getFallbackChunks_events [OF fb] generate_observed [OF g]
      have "loggedEntries evs = []" by (auto simp: loggedEntries_append)
      with mem show ?thesis by simp
    next
      case False
      obtain g w2 evs2 where g: "generateResponseWithFallback sv question enhancedChunks
                          (tokenCount er) w1 = (g, w2, evs2)"
        by (cases "generateResponseWithFallback sv question enhancedChunks (tokenCount er) w1") auto
      note e2 = generate_observed [OF g]
      show ?thesis
      proof (cases g)
        case (Inl err)
        with valid rc \<open>rc = Inr p\<close> p False g run have "evs = evs1 @ evs2"
          by (auto simp: askQuestion_def Let_def)
        with e1 e2 mem show ?thesis by (simp add: loggedEntries_append)
      next
        case (Inr r)
        from g Inr have "generateResponseWithFallback sv question enhancedChunks
                          (tokenCount er) w1 = (Inr r, w2, evs2)" by simp
        from generate_tokens [OF this] obtain tu model pr wc raw usage w2' where
          q: "ChatCompletion model pr \<in> set evs2"
             "chat_completions sv model pr wc = (Completed raw usage, w2')"
             "rawResponse r = Some raw"
             "tu_totalTokens tu =
                orElse (truthyNat (Option.bind usage usage_total_tokens))
               (orElse (truthyNat (Option.bind usage usage_prompt_tokens)) 0 +
                orElse (truthyNat (Option.bind usage usage_completion_tokens)) 0)"
          and t0: "success r" "tokenUsage r = Some tu"
             "answer r = Some (p_answer (parseModelResponse raw))"
             "tu_embeddingTokens tu = tokenCount er"
             "Option.bind (metadata r) md_totalTokens = Some (tu_totalTokens tu)"
          by blast
        define a where "a = p_answer (parseModelResponse raw)"
        from t0 have t: "success r" "tokenUsage r = Some tu" "answer r = Some a"
             "tu_embeddingTokens tu = tokenCount er"
             "Option.bind (metadata r) md_totalTokens = Some (tu_totalTokens tu)"
          by (simp_all add: a_def)
        have tot: "orElse (truthyNat (Option.bind (metadata r) md_totalTokens)) 0 = tu_totalTokens tu"
          using t(5) by (simp add: orElse_def truthyNat_def)
        obtain w3 evs3 where l: "logAIUsage sv (truthyStr (case truthyStr (lawyerId opts) of Some l \<Rightarrow> Some l | None \<Rightarrow> preceptorId opts)) question
                               (orElse (truthyStr (map_option md_model (metadata r))) (js ''unknown''))
                               (tokenCount er + tu_totalTokens tu)
                               (Some a)
                               (Some (setOrder (map c_document_title enhancedChunks)))
                               None w2 = (w3, evs3)"
          by (cases "logAIUsage sv (truthyStr (case truthyStr (lawyerId opts) of Some l \<Rightarrow> Some l | None \<Rightarrow> preceptorId opts)) question
                               (orElse (truthyStr (map_option md_model (metadata r))) (js ''unknown''))
                               (tokenCount er + tu_totalTokens tu)
                               (Some a)
                               (Some (setOrder (map c_document_title enhancedChunks)))
                               None w2") auto
        from logAIUsage_entry [OF l] obtain en where
          en: "evs3 = [InsertUsageLog en]" "log_prompt_tokens en = tokenCount er + tu_totalTokens tu"
              "log_completion_tokens en = nat \<lceil>real (length a) / 4\<rceil>"
              "log_total_tokens en = tokenCount er + tu_totalTokens tu + nat \<lceil>real (length a) / 4\<rceil>"
          by blast
        from valid rc \<open>rc = Inr p\<close> p False g Inr l t(3) tot run
        have r: "res = Inr r" and ev: "evs = evs1 @ evs2 @ evs3"
          by (auto simp: askQuestion_def Let_def)
        from ev en(1) e1 e2 have le: "loggedEntries evs = [en]" by (simp add: loggedEntries_append)
        with mem have "entry = en" by simp
        moreover from ev q(1) have "ChatCompletion model pr \<in> set evs" by simp
        ultimately show ?thesis using r t emb le en q(2) q(3) q(4) a_def
          by (intro exI [of _ r] exI [of _ tu] exI [of _ a] exI [of _ er] exI [of _ w0]
                exI [of _ model] exI [of _ pr] exI [of _ wc] exI [of _ raw] exI [of _ usage]
                exI [of _ w2'] conjI)
             simp_all
      qed
    qed
  qed
qed

lemma getFallbackChunks_requests:
  "getFallbackChunks sv w = (res, w', evs) \<Longrightarrow> evs = [SelectRecentChunks]"
  by (auto simp: getFallbackChunks_def split: prod.splits)

lemma answered_query_is_logged:
  assumes run: "askQuestion sv question opts w = (Inr r, w', evs)"
    and ok: "success r"
    and direct: "SelectRecentChunks \<notin> set evs"
  shows "loggedEntries evs \<noteq> []"
proof -
  have valid: "isValid (validateQuestion question)"
  proof (rule ccontr)
    assume "\<not> isValid (validateQuestion question)"
    with run have "r = failure (v_message (validateQuestion question))"
      by (auto simp: askQuestion_def Let_def)
    with ok show False by (simp add: failure_def)
  qed
  obtain rc w1 evs1 where rc: "retrieveChunks sv question opts w = (rc, w1, evs1)"
    by (cases "retrieveChunks sv question opts w") auto
  show ?thesis
  proof (cases rc)
    case (Inl err)
    with valid rc run have "r = caught err" by (auto simp: askQuestion_def Let_def)
    with ok show ?thesis by (simp add: caught_def failure_def)
  next
    case (Inr p)
    obtain er enhancedChunks where p: "p = (er, enhancedChunks)" by (cases p) auto
    show ?thesis
    proof (cases "enhancedChunks = []")
      case True
      obtain fb w2 evs2 where fb: "getFallbackChunks sv w1 = (fb, w2, evs2)"
        by (cases "getFallbackChunks sv w1") auto
      obtain g w3 evs3 where g: "generateResponseWithFallback sv question fb (tokenCount er) w2 = (g, w3, evs3)"
        by (cases "generateResponseWithFallback sv question fb (tokenCount er) w2") auto
      from valid rc Inr p True fb g run ok
      have "evs = evs1 @ evs2 \<or> evs = evs1 @ evs2 @ evs3"
        by (auto simp: askQuestion_def Let_def failure_def split: if_splits)
      with getFallbackChunks_requests [OF fb] direct show ?thesis by auto
    next
      case False
      obtain g w2 evs2 where g: "generateResponseWithFallback sv question enhancedChunks
                          (tokenCount er) w1 = (g, w2, evs2)"
        by (cases "generateResponseWithFallback sv question enhancedChunks (tokenCount er) w1") auto
      show ?thesis
      proof (cases g)
        case (Inl err)
        with valid rc \<open>rc = Inr p\<close> p False g run have "r = caught err"
          by (auto simp: askQuestion_def Let_def)
        with ok show ?thesis by (simp add: caught_def failure_def)
      next
        case (Inr response)
        obtain w3 evs3 where l: "logAIUsage sv (truthyStr (case truthyStr (lawyerId opts) of Some l \<Rightarrow> Some l | None \<Rightarrow> preceptorId opts)) question
                               (orElse (truthyStr (map_option md_model (metadata response))) (js ''unknown''))
                               (tokenCount er +
                                orElse (truthyNat (Option.bind (metadata response) md_totalTokens)) 0)
                               (answer response)
                               (Some (setOrder (map c_document_title enhancedChunks)))
                               None w2 = (w3, evs3)"
          by (cases "logAIUsage sv (truthyStr (case truthyStr (lawyerId opts) of Some l \<Rightarrow> Some l | None \<Rightarrow> preceptorId opts)) question
                               (orElse (truthyStr (map_option md_model (metadata response))) (js ''unknown''))
                               (tokenCount er +
                                orElse (truthyNat (Option.bind (metadata response) md_totalTokens)) 0)
                               (answer response)
                               (Some (setOrder (map c_document_title enhancedChunks)))
                               None w2") auto
        from logAIUsage_events [OF l] obtain entry where e3: "evs3 = [InsertUsageLog entry]" by blast
        from valid rc \<open>rc = Inr p\<close> p False g Inr l run have "evs = evs1 @ evs2 @ evs3"
          by (auto simp: askQuestion_def Let_def)
        with e3 show ?thesis by (simp add: loggedEntries_append)
      qed
    qed
  qed
qed

text \<open>
  C7 (amended): for every successful query that is answered from retrieved chunks (the
  run does not ask for the recent chunks), exactly one usage record is handed to the log.
  Its \<open>prompt_tokens\<close> is the token count of the embedding of the question plus the total
  tokens of the completion that the run requested and that the result carries in
  \<open>rawResponse\<close>: the \<open>total_tokens\<close> of the reply's \<open>usage\<close> when present and not 0,
  otherwise its \<open>prompt_tokens\<close> plus its \<open>completion_tokens\<close>, each missing count taken
  as 0. Its \<open>completion_tokens\<close> is the length of the answer, which is the answer part
  that \<open>parseModelResponse\<close> takes from the content of that completion, divided by 4 and
  rounded up; and its \<open>total_tokens\<close> is the sum of the two.
\<close>

theorem usage_record_tokens:
  assumes run: "askQuestion sv question opts w = (Inr r, w', evs)"
    and ok: "success r"
    and direct: "SelectRecentChunks \<notin> set evs"
  shows "\<exists>entry tu a er w1 model pr w0 raw usage w2.
           loggedEntries evs = [entry] \<and>
           generateEmbedding sv question w = (Inr er, w1) \<and>
           ChatCompletion model pr \<in> set evs \<and>
           chat_completions sv model pr w0 = (Completed raw usage, w2) \<and>
           rawResponse r = Some raw \<and>
           a = p_answer (parseModelResponse raw) \<and>
           tu_totalTokens tu =
             orElse (truthyNat (Option.bind usage usage_total_tokens))
               (orElse (truthyNat (Option.bind usage usage_prompt_tokens)) 0 +
                orElse (truthyNat (Option.bind usage usage_completion_tokens)) 0) \<and>
           tokenUsage r = Some tu \<and> answer r = Some a \<and>
           log_prompt_tokens entry = tokenCount er + tu_totalTokens tu \<and>
           log_prompt_tokens entry =
             tokenCount er +
             orElse (truthyNat (Option.bind usage usage_total_tokens))
               (orElse (truthyNat (Option.bind usage usage_prompt_tokens)) 0 +
                orElse (truthyNat (Option.bind usage usage_completion_tokens)) 0) \<and>
           log_completion_tokens entry = nat \<lceil>real (length a) / 4\<rceil> \<and>
           log_completion_tokens entry =
             nat \<lceil>real (length (p_answer (parseModelResponse raw))) / 4\<rceil> \<and>
           log_total_tokens entry = log_prompt_tokens entry + log_completion_tokens entry"
proof -
  from answered_query_is_logged [OF run ok direct] obtain entry where
    "entry \<in> set (loggedEntries evs)" by (cases "loggedEntries evs") auto
  then have m: "InsertUsageLog entry \<in> set evs" by (simp add: loggedEntries_set)
  from logged_record_tokens [OF run m] obtain r' tu a er w1 model pr w0 raw usage w2 where
    f: "Inr r = (Inr r' :: jsstring + rag_response)"
       "generateEmbedding sv question w = (Inr er, w1)"
       "ChatCompletion model pr \<in> set evs"
       "chat_completions sv model pr w0 = (Completed raw usage, w2)"
       "rawResponse r' = Some raw"
       "a = p_answer (parseModelResponse raw)"
       "tu_totalTokens tu =
          orElse (truthyNat (Option.bind usage usage_total_tokens))
               (orElse (truthyNat (Option.bind usage usage_prompt_tokens)) 0 +
                orElse (truthyNat (Option.bind usage usage_completion_tokens)) 0)"
       "tokenUsage r' = Some tu" "answer r' = Some a"
       "loggedEntries evs = [entry]"
       "log_prompt_tokens entry = tokenCount er + tu_totalTokens tu"
       "log_completion_tokens entry = nat \<lceil>real (length a) / 4\<rceil>"
       "log_total_tokens entry = log_prompt_tokens entry + log_completion_tokens entry"
    by blast
  from f(1) have "r' = r" by simp
  with f show ?thesis
    by (intro exI [of _ entry] exI [of _ tu] exI [of _ a] exI [of _ er] exI [of _ w1]
          exI [of _ model] exI [of _ pr] exI [of _ w0] exI [of _ raw] exI [of _ usage]
          exI [of _ w2] conjI)
       simp_all
qed

text \<open>
  The theorem in the example world: the completion reports 100 total tokens and its
  content has 48 code units, of which the answer \<open>## Detail\<close> has 9.
\<close>

theorem usage_record_tokens_witness:
  "\<exists>r w' evs.
     askQuestion (exampleServices 0 [bailChunk] []) exampleQuestion noOptions 0 = (Inr r, w', evs) \<and>
     success r \<and> SelectRecentChunks \<notin> set evs \<and>
     map log_prompt_tokens (loggedEntries evs) = [113] \<and>
     map log_completion_tokens (loggedEntries evs) = [3] \<and>
     map log_completion_tokens (loggedEntries evs) =
       [nat \<lceil>real (length (p_answer (parseModelResponse (the (rawResponse r))))) / 4\<rceil>] \<and>
     map log_total_tokens (loggedEntries evs) =
       map (\<lambda>e. log_prompt_tokens e + log_completion_tokens e) (loggedEntries evs)"
proof -
  define run where "run = askQuestion (exampleServices 0 [bailChunk] []) exampleQuestion noOptions 0"
  from example_run_logged obtain entry where
    e: "loggedEntries (snd (snd run)) = [entry]" and p: "log_prompt_tokens entry = 113"
    unfolding run_def by (auto simp: map_eq_Cons_conv)
  then have m: "InsertUsageLog entry \<in> set (snd (snd run))" by (simp add: loggedEntries_set)
  from example_run_completion e have k: "log_completion_tokens entry = 3"
    by (simp add: run_def)
  have c: "askQuestion (exampleServices 0 [bailChunk] []) exampleQuestion noOptions 0 =
             (fst run, fst (snd run), snd (snd run))" by (simp add: run_def)
  from logged_record_tokens [OF c m] obtain r where r: "fst run = Inr r" and ok: "success r"
    by blast
  from example_run_direct have d: "SelectRecentChunks \<notin> set (snd (snd run))"
    by (simp add: run_def)
  from c r have c': "askQuestion (exampleServices 0 [bailChunk] []) exampleQuestion noOptions 0 =
             (Inr r, fst (snd run), snd (snd run))" by simp
  from usage_record_tokens [OF c' ok d] e
  have t: "log_total_tokens entry = log_prompt_tokens entry + log_completion_tokens entry"
    and l: "log_completion_tokens entry =
              nat \<lceil>real (length (p_answer (parseModelResponse (the (rawResponse r))))) / 4\<rceil>"
    by auto
  from c' ok d e p k l t show ?thesis
    by (intro exI [of _ r] exI [of _ "fst (snd run)"] exI [of _ "snd (snd run)"]) simp
qed

lemma example_fallback_run:
  "map_sum id success
     (fst (askQuestion (exampleServices 0 [] [bailChunk]) exampleQuestion noOptions 0)) = Inr True \<and>
   loggedEntries
     (snd (snd (askQuestion (exampleServices 0 [] [bailChunk]) exampleQuestion noOptions 0))) = []"
  by (simp add: pipeline_defs example_defs string_defs value_defs)

text \<open>
  The claim as stated fails: in the example world the question \<open>What is bail?\<close>
  has four query variations, whose embeddings consume 109 tokens, and the completion
  reports 100 tokens; the record has \<open>prompt_tokens\<close> 113, the 13 tokens of the question's
  own embedding plus the 100 of the completion. The content of the completion has 48
  code units, a quarter of which is 12; the record has \<open>completion_tokens\<close> 3, for the 9
  code units of the answer part. And when the searches find nothing and the answer is
  generated from the recent chunks, the query succeeds and no record is handed to the
  log.
\<close>

theorem usage_record_prompt_tokens_counterexample:
  "map log_prompt_tokens
     (loggedEntries (snd (snd (askQuestion (exampleServices 0 [bailChunk] []) exampleQuestion
                                 noOptions 0)))) = [113] \<and>
   variantSearchTokens (exampleServices 0 [bailChunk] []) (generateSearchQueries exampleQuestion) 0 = 109 \<and>
   map log_prompt_tokens
     (loggedEntries (snd (snd (askQuestion (exampleServices 0 [bailChunk] []) exampleQuestion
                                 noOptions 0)))) \<noteq>
   [variantSearchTokens (exampleServices 0 [bailChunk] []) (generateSearchQueries exampleQuestion) 0] \<and>
   map_sum id (map_option length \<circ> rawResponse)
     (fst (askQuestion (exampleServices 0 [bailChunk] []) exampleQuestion noOptions 0)) =
     Inr (Some 48) \<and>
   nat \<lceil>real 48 / 4\<rceil> = 12 \<and>
   map log_completion_tokens
     (loggedEntries (snd (snd (askQuestion (exampleServices 0 [bailChunk] []) exampleQuestion
                                 noOptions 0)))) = [3] \<and>
   map_sum id success
     (fst (askQuestion (exampleServices 0 [] [bailChunk]) exampleQuestion noOptions 0)) = Inr True \<and>
   loggedEntries
     (snd (snd (askQuestion (exampleServices 0 [] [bailChunk]) exampleQuestion noOptions 0))) = []"
proof -
  have "nat \<lceil>real 48 / 4\<rceil> = 12" by (simp add: ceil4)
  with example_run_logged example_variant_tokens example_fallback_run example_run_completion
  show ?thesis by simp
qed

end
